theory Spec2Isabelle
  imports Main "HOL-Library.Word" "HOL-Library.AList"
begin

section \<open>The WebRTC connection: a stream multiplexer over one peer connection\<close>

text \<open>
  A shallow embedding of \<^verbatim>\<open>p2p/transport/webrtc/connection.go\<close>. The Go struct
  \<^verbatim>\<open>connection\<close> becomes a record, each method a function that takes the
  connection and returns its result together with the updated connection. The
  collaborators the file only calls (the pion peer connection, the resource scope, the
  stream objects, the detached byte streams, the logger) are represented by the calls
  made on them: every such call is appended to the field \<open>trace\<close>, which is not a
  field of the Go struct. The writes of \<^verbatim>\<open>closeErr\<close> and the calls of
  \<^verbatim>\<open>cancel\<close> are recorded in the trace too, so that their order can be stated.
  The identity fields (peers, keys, multiaddresses, transport, connection state tag) are
  read-only after setup and are left out.
\<close>

subsection \<open>Machine integers\<close>

type_synonym u16 = "16 word"
type_synonym i32 = "32 word"

text \<open>\<^verbatim>\<open>math.MaxUint16\<close>, compared with an \<^verbatim>\<open>int32\<close>: a signed comparison.\<close>

definition MaxUint16 :: int where
  "MaxUint16 = 65535"

subsection \<open>Errors\<close>

text \<open>
  \<^verbatim>\<open>type errConnectionTimeout struct{}\<close> with its three methods
  (\<^verbatim>\<open>net.Error\<close>).
\<close>

datatype errConnectionTimeout = ErrConnectionTimeout

fun errConnectionTimeout_Error :: "errConnectionTimeout \<Rightarrow> string" where
  "errConnectionTimeout_Error ErrConnectionTimeout = ''connection timeout''"

fun errConnectionTimeout_Timeout :: "errConnectionTimeout \<Rightarrow> bool" where
  "errConnectionTimeout_Timeout ErrConnectionTimeout = True"

fun errConnectionTimeout_Temporary :: "errConnectionTimeout \<Rightarrow> bool" where
  "errConnectionTimeout_Temporary ErrConnectionTimeout = False"

text \<open>
  The values of Go's interface \<^verbatim>\<open>error\<close> that this file produces or passes on:
  \<^verbatim>\<open>errors.New(msg)\<close>, an \<^verbatim>\<open>errConnectionTimeout{}\<close>,
  \<^verbatim>\<open>fmt.Errorf("open stream: %w", err)\<close>, and an error handed over by a
  collaborator (\<^verbatim>\<open>pc.CreateDataChannel\<close>, \<^verbatim>\<open>dc.Detach\<close>,
  \<^verbatim>\<open>ctx.Err()\<close>), known by its message only. A nil error is \<open>None\<close> of
  \<open>err option\<close>.
\<close>

datatype err =
    ErrorsNew string
  | ConnTimeout errConnectionTimeout
  | Errorf string err
  | Foreign string

fun Error :: "err \<Rightarrow> string" where
  "Error (ErrorsNew msg) = msg"
| "Error (ConnTimeout e) = errConnectionTimeout_Error e"
| "Error (Errorf prefix e) = prefix @ Error e"
| "Error (Foreign msg) = msg"

subsection \<open>Channels, detached channels, streams\<close>

text \<open>
  A \<^verbatim>\<open>*webrtc.DataChannel\<close> is known here by its numeric ID. A
  \<^verbatim>\<open>datachannel.ReadWriteCloser\<close> is an interface value: \<open>None\<close> is nil, \<open>Some h\<close>
  the handle \<open>h\<close>.
\<close>

datatype DataChannel = DataChannel (ID: u16)

type_synonym ReadWriteCloser = "nat option"

text \<open>\<^verbatim>\<open>type DetachedDataChannel struct { stream; channel }\<close>\<close>

record DetachedDataChannel =
  dd_stream :: ReadWriteCloser
  dd_channel :: DataChannel

text \<open>
  The stream type lives in another file of the package. What this file relies on is its
  field \<^verbatim>\<open>id\<close> (read by \<^verbatim>\<open>addStream\<close>), the three values it is constructed
  from, and the methods \<^verbatim>\<open>Reset\<close>, \<^verbatim>\<open>Close\<close> and \<^verbatim>\<open>setCloseError\<close>.
  The teardown callback passed to \<^verbatim>\<open>newStream\<close> is always
  \<^verbatim>\<open>func() { c.removeStream(x) }\<close>; the record keeps the \<open>x\<close> it is bound to.
\<close>

record stream =
  str_id :: u16
  str_channel :: DataChannel
  str_rwc :: ReadWriteCloser
  str_onDone :: u16

text \<open>
  Modelled from the spec: \<^verbatim>\<open>newStream\<close> is defined in the package's stream file,
  which is not among the sources. The spec says a stream is "constructed from (channel
  handle, raw byte-stream handle, deregistration callback)" and is "bound to the
  channel's own numeric ID".
\<close>

definition newStream :: "DataChannel \<Rightarrow> ReadWriteCloser \<Rightarrow> u16 \<Rightarrow> stream" where
  "newStream channel rwc onDone =
     \<lparr>str_id = ID channel, str_channel = channel, str_rwc = rwc, str_onDone = onDone\<rparr>"

text \<open>
  Modelled from the spec: the flag of the protobuf control message
  (\<^verbatim>\<open>pb.Message_RESET\<close>), from the package \<^verbatim>\<open>pb\<close> that is not among the
  sources: "a single serialized control message with a reset flag".
\<close>

datatype Message_Flag = Message_FIN | Message_STOP_SENDING | Message_RESET

subsection \<open>The calls on the collaborators\<close>

datatype event =
    SetCloseErr err
  | CtxCancel
  | PcCreateDataChannel u16
  | PcClose
  | ScopeDone
  | StreamReset stream
  | StreamSetCloseError stream err
  | StreamClose stream
  | RwcWriteMsg ReadWriteCloser Message_Flag
  | RwcClose ReadWriteCloser
  | LogWarnf string

subsection \<open>The accept queue\<close>

text \<open>
  \<^verbatim>\<open>chan DetachedDataChannel\<close>: the values sent and not yet received, in arrival
  order, and the capacity given to \<^verbatim>\<open>make\<close>. A value that a sender hands directly
  to a receiver already waiting is in the list until that receiver's step takes it.
\<close>

record chan =
  buf :: "DetachedDataChannel list"
  capacity :: nat

subsection \<open>The connection\<close>

text \<open>
  \<^verbatim>\<open>streams\<close> is a Go map or nil: \<open>None\<close> is the nil map, \<open>Some al\<close> a map given
  by the association list \<open>al\<close>, read with \<open>map_of\<close>, written with \<open>AList.update\<close>
  and \<open>AList.delete\<close>. Go leaves the order of \<^verbatim>\<open>range\<close> over a map open; the
  list order stands for one such order. \<open>ctx_done\<close> is the state of \<^verbatim>\<open>ctx\<close>:
  whether \<^verbatim>\<open>ctx.Done()\<close> is closed. \<open>closeOnce\<close> is whether the
  \<^verbatim>\<open>sync.Once\<close> has been used.
\<close>

record connection =
  closeOnce :: bool
  closeErr :: "err option"
  streams :: "(u16 \<times> stream) list option"
  nextStreamID :: i32
  acceptQueue :: chan
  ctx_done :: bool
  trace :: "event list"

definition emit :: "event \<Rightarrow> connection \<Rightarrow> connection" where
  "emit e c = c\<lparr>trace := trace c @ [e]\<rparr>"

datatype Direction = DirUnknown | DirInbound | DirOutbound

datatype PeerConnectionState =
    PeerConnectionStateNew
  | PeerConnectionStateConnecting
  | PeerConnectionStateConnected
  | PeerConnectionStateDisconnected
  | PeerConnectionStateFailed
  | PeerConnectionStateClosed

text \<open>
  \<^verbatim>\<open>NewWebRTCConnection\<close>: the second argument is what \<^verbatim>\<open>pc.ConnectionState()\<close>
  returns. The result is the pair the Go function returns, and the calls made on the peer
  connection when no connection is returned.
\<close>

definition NewWebRTCConnection ::
  "Direction \<Rightarrow> PeerConnectionState \<Rightarrow> chan \<Rightarrow> connection option \<times> err option \<times> event list" where
  "NewWebRTCConnection direction state datachannelQueue =
     (let c = \<lparr>closeOnce = False, closeErr = None, streams = Some [],
                nextStreamID = (case direction of
                                  DirInbound \<Rightarrow> 1
                                | DirOutbound \<Rightarrow> 2
                                | DirUnknown \<Rightarrow> 0),
                acceptQueue = datachannelQueue, ctx_done = False, trace = []\<rparr>
      in if state = PeerConnectionStateFailed \<or> state = PeerConnectionStateClosed
         then (None, Some (ErrorsNew ''connection closed''), [PcClose])
         else (Some c, None, []))"

subsection \<open>The stream table\<close>

definition addStream :: "stream \<Rightarrow> connection \<Rightarrow> err option \<times> connection" where
  "addStream str c =
     (case streams c of
        None \<Rightarrow> (closeErr c, c)
      | Some al \<Rightarrow>
          (case map_of al (str_id str) of
             Some old \<Rightarrow> (Some (ErrorsNew ''stream ID already exists''), c)
           | None \<Rightarrow> (None, c\<lparr>streams := Some (AList.update (str_id str) str al)\<rparr>)))"

text \<open>\<^verbatim>\<open>delete\<close> on a nil map does nothing.\<close>

definition removeStream :: "u16 \<Rightarrow> connection \<Rightarrow> connection" where
  "removeStream i c =
     (case streams c of
        None \<Rightarrow> c
      | Some al \<Rightarrow> c\<lparr>streams := Some (AList.delete i al)\<rparr>)"

subsection \<open>Close and closeTimedOut\<close>

text \<open>
  The body given to \<^verbatim>\<open>closeOnce.Do\<close> is a list of statements, each a function on
  the local variable \<^verbatim>\<open>streams\<close> and the connection, in the order of the source.
\<close>

type_synonym frame = "(u16 \<times> stream) list option \<times> connection"

definition range_streams :: "(u16 \<times> stream) list option \<Rightarrow> stream list" where
  "range_streams m = (case m of None \<Rightarrow> [] | Some al \<Rightarrow> map snd al)"

text \<open>
  Modelled from the spec: the methods of the stream type, which is defined in the
  package's stream file and is not among the sources. The spec says a stream has
  \<^verbatim>\<open>Close\<close>, \<^verbatim>\<open>Reset\<close> ("abrupt, discards buffers") and \<^verbatim>\<open>SetCloseError\<close>
  ("records a reason without discarding"), and that it is "created with a teardown
  callback that the Connection uses to deregister it from the Stream Table when the stream
  itself closes", streams being destroyed by "their own reset/close". So
  \<^verbatim>\<open>Close\<close> and \<^verbatim>\<open>Reset\<close> are the call, recorded in the trace, followed by the
  callback \<^verbatim>\<open>c.removeStream(x)\<close> the stream was made with; \<^verbatim>\<open>setCloseError\<close> is the
  call only.
\<close>

definition stream_Reset :: "stream \<Rightarrow> connection \<Rightarrow> connection" where
  "stream_Reset str c = removeStream (str_onDone str) (emit (StreamReset str) c)"

definition stream_setCloseError :: "err \<Rightarrow> stream \<Rightarrow> connection \<Rightarrow> connection" where
  "stream_setCloseError e str c = emit (StreamSetCloseError str e) c"

definition stream_Close :: "stream \<Rightarrow> connection \<Rightarrow> connection" where
  "stream_Close str c = removeStream (str_onDone str) (emit (StreamClose str) c)"

definition set_closeErr :: "err \<Rightarrow> frame \<Rightarrow> frame" where
  "set_closeErr e f = (fst f, emit (SetCloseErr e) ((snd f)\<lparr>closeErr := Some e\<rparr>))"

definition cancel :: "frame \<Rightarrow> frame" where
  "cancel f = (fst f, emit CtxCancel ((snd f)\<lparr>ctx_done := True\<rparr>))"

definition take_streams :: "frame \<Rightarrow> frame" where
  "take_streams f = (streams (snd f), (snd f)\<lparr>streams := None\<rparr>)"

definition reset_all :: "frame \<Rightarrow> frame" where
  "reset_all f = (fst f, fold stream_Reset (range_streams (fst f)) (snd f))"

definition setCloseError_all :: "frame \<Rightarrow> frame" where
  "setCloseError_all f =
     (fst f, fold (stream_setCloseError (ConnTimeout ErrConnectionTimeout))
                  (range_streams (fst f)) (snd f))"

definition pc_Close :: "frame \<Rightarrow> frame" where
  "pc_Close f = (fst f, emit PcClose (snd f))"

definition scope_Done :: "frame \<Rightarrow> frame" where
  "scope_Done f = (fst f, emit ScopeDone (snd f))"

definition Close_body :: "(frame \<Rightarrow> frame) list" where
  "Close_body =
     [set_closeErr (ErrorsNew ''connection closed''),
      cancel,
      take_streams,
      reset_all,
      pc_Close,
      scope_Done]"

definition closeTimedOut_body :: "(frame \<Rightarrow> frame) list" where
  "closeTimedOut_body =
     [set_closeErr (ConnTimeout ErrConnectionTimeout),
      cancel,
      take_streams,
      setCloseError_all,
      pc_Close,
      scope_Done]"

definition run_body :: "(frame \<Rightarrow> frame) list \<Rightarrow> frame \<Rightarrow> frame" where
  "run_body body f = fold (\<lambda>stmt g. stmt g) body f"

text \<open>\<^verbatim>\<open>sync.Once.Do\<close>: the body runs if the Once has not been used.\<close>

definition closeOnce_Do :: "(frame \<Rightarrow> frame) list \<Rightarrow> connection \<Rightarrow> connection" where
  "closeOnce_Do body c =
     (if closeOnce c then c else snd (run_body body (None, c\<lparr>closeOnce := True\<rparr>)))"

definition Close :: "connection \<Rightarrow> err option \<times> connection" where
  "Close c = (None, closeOnce_Do Close_body c)"

definition closeTimedOut :: "connection \<Rightarrow> err option \<times> connection" where
  "closeTimedOut c = (None, closeOnce_Do closeTimedOut_body c)"

text \<open>The callback given to \<^verbatim>\<open>pc.OnConnectionStateChange\<close>.\<close>

definition onConnectionStateChange :: "PeerConnectionState \<Rightarrow> connection \<Rightarrow> connection" where
  "onConnectionStateChange state c =
     (if state = PeerConnectionStateFailed \<or> state = PeerConnectionStateClosed
      then snd (closeTimedOut c) else c)"

definition IsClosed :: "connection \<Rightarrow> bool" where
  "IsClosed c = (if ctx_done c then True else False)"

subsection \<open>Blocking calls\<close>

text \<open>
  A call that waits in a \<^verbatim>\<open>select\<close> either returns or, when no case of the select
  is ready, blocks. Where several cases are ready Go picks one at random: the pick is an
  argument of the model.
\<close>

datatype 'a outcome = Blocks | Returns 'a

subsection \<open>detachChannel and OpenStream\<close>

datatype detach_case = CaseConnDone | CaseCtxDone | CaseOpened

text \<open>
  What the surroundings of one \<^verbatim>\<open>OpenStream\<close> call do: the error of
  \<^verbatim>\<open>pc.CreateDataChannel\<close> (nil on success, and then the channel carries the
  requested ID); \<^verbatim>\<open>ctx.Err()\<close> of the caller's context if that context is done;
  the pair \<^verbatim>\<open>dc.Detach()\<close> returns in the \<^verbatim>\<open>OnOpen\<close> callback if that callback
  fires; the order in which the select prefers ready cases; and whether another goroutine
  closes the connection while this call waits in the select, or between the select and
  \<^verbatim>\<open>addStream\<close>.
\<close>

datatype close_call = CallClose | CallCloseTimedOut

fun do_close :: "close_call \<Rightarrow> connection \<Rightarrow> err option \<times> connection" where
  "do_close CallClose c = Close c"
| "do_close CallCloseTimedOut c = closeTimedOut c"

fun racing :: "close_call option \<Rightarrow> connection \<Rightarrow> connection" where
  "racing None c = c"
| "racing (Some k) c = snd (do_close k c)"

record open_env =
  create_err :: "err option"
  ctx_err :: "err option"
  on_open :: "(ReadWriteCloser \<times> err option) option"
  pick_order :: "detach_case list"
  race_in_select :: "close_call option"
  race_before_add :: "close_call option"

definition case_ready :: "open_env \<Rightarrow> connection \<Rightarrow> detach_case \<Rightarrow> bool" where
  "case_ready env c k =
     (case k of
        CaseConnDone \<Rightarrow> ctx_done c
      | CaseCtxDone \<Rightarrow> ctx_err env \<noteq> None
      | CaseOpened \<Rightarrow> on_open env \<noteq> None)"

definition detachChannel ::
  "open_env \<Rightarrow> DataChannel \<Rightarrow> connection \<Rightarrow> (ReadWriteCloser \<times> err option) outcome" where
  "detachChannel env dc c =
     (case find (case_ready env c) (pick_order env @ [CaseConnDone, CaseCtxDone, CaseOpened]) of
        None \<Rightarrow> Blocks
      | Some CaseConnDone \<Rightarrow> Returns (None, closeErr c)
      | Some CaseCtxDone \<Rightarrow> Returns (None, ctx_err env)
      | Some CaseOpened \<Rightarrow>
          (case on_open env of None \<Rightarrow> Blocks | Some r \<Rightarrow> Returns r))"

text \<open>\<^verbatim>\<open>c.nextStreamID.Add(delta)\<close>: the new value, and the connection.\<close>

definition nextStreamID_Add :: "i32 \<Rightarrow> connection \<Rightarrow> i32 \<times> connection" where
  "nextStreamID_Add delta c =
     (nextStreamID c + delta, c\<lparr>nextStreamID := nextStreamID c + delta\<rparr>)"

definition OpenStream ::
  "open_env \<Rightarrow> connection \<Rightarrow> (stream option \<times> err option) outcome \<times> connection" where
  "OpenStream env c =
     (if IsClosed c then (Returns (None, closeErr c), c)
      else
        let (new, c1) = nextStreamID_Add 2 c;
            i = new - 2
        in if sint i > MaxUint16
           then (Returns (None, Some (ErrorsNew ''exhausted stream ID space'')), c1)
           else
             let streamID = (ucast i :: u16);
                 c2 = emit (PcCreateDataChannel streamID) c1
             in (case create_err env of
                   Some e \<Rightarrow> (Returns (None, Some e), c2)
                 | None \<Rightarrow>
                     let dc = DataChannel streamID;
                         c3 = racing (race_in_select env) c2
                     in (case detachChannel env dc c3 of
                           Blocks \<Rightarrow> (Blocks, c3)
                         | Returns (rwc, Some e) \<Rightarrow>
                             (Returns (None, Some (Errorf ''open stream: '' e)), c3)
                         | Returns (rwc, None) \<Rightarrow>
                             let str = newStream dc rwc streamID;
                                 c4 = racing (race_before_add env) c3;
                                 (r, c5) = addStream str c4
                             in (case r of
                                   Some e \<Rightarrow> (Returns (None, Some e), stream_Close str c5)
                                 | None \<Rightarrow> (Returns (Some str, None), c5)))))"

subsection \<open>AcceptStream\<close>

datatype accept_case = CaseDone | CaseQueue

definition AcceptStream ::
  "accept_case \<Rightarrow> connection \<Rightarrow> (stream option \<times> err option) outcome \<times> connection" where
  "AcceptStream pick c =
     (case buf (acceptQueue c) of
        [] \<Rightarrow> (if ctx_done c then (Returns (None, closeErr c), c) else (Blocks, c))
      | dc # rest \<Rightarrow>
          if ctx_done c \<and> pick = CaseDone then (Returns (None, closeErr c), c)
          else
            let c1 = c\<lparr>acceptQueue := (acceptQueue c)\<lparr>buf := rest\<rparr>\<rparr>;
                str = newStream (dd_channel dc) (dd_stream dc) (ID (dd_channel dc));
                (r, c2) = addStream str c1
            in (case r of
                  Some e \<Rightarrow> (Returns (None, Some e), stream_Close str c2)
                | None \<Rightarrow> (Returns (Some str, None), c2)))"

subsection \<open>SetupDataChannelQueue\<close>

text \<open>
  \<^verbatim>\<open>make(chan DetachedDataChannel, queueLen)\<close> panics on a negative length and on
  a length whose buffer the runtime cannot allocate: \<open>None\<close>. The largest length the
  runtime allocates depends on the platform and is the first argument.
\<close>

definition SetupDataChannelQueue :: "int \<Rightarrow> int \<Rightarrow> chan option" where
  "SetupDataChannelQueue maxLen queueLen =
     (if queueLen < 0 \<or> maxLen < queueLen then None
      else Some \<lparr>buf = [], capacity = nat queueLen\<rparr>)"

text \<open>
  The \<^verbatim>\<open>OnOpen\<close> callback installed for each channel the remote opens. Its first
  argument is the number of goroutines that are blocked receiving from the queue (in the
  select of \<^verbatim>\<open>AcceptStream\<close>) and have not been handed a value yet; its second
  argument is the pair \<^verbatim>\<open>dc.Detach()\<close> returns. It works on the queue and on the
  collaborators. The send in the \<^verbatim>\<open>select\<close> goes through when the buffer has room or
  a receiver is waiting; a value handed to a waiting receiver stays in \<open>buf\<close> until the
  step of that receiver's \<^verbatim>\<open>AcceptStream\<close> takes it. Otherwise the
  \<^verbatim>\<open>default\<close> case runs.
\<close>

definition onOpen ::
  "nat \<Rightarrow> ReadWriteCloser \<times> err option \<Rightarrow> DataChannel \<Rightarrow> chan \<times> event list
     \<Rightarrow> chan \<times> event list" where
  "onOpen waiting detached dc qt =
     (case detached of
        (rwc, Some e) \<Rightarrow> (fst qt, snd qt @ [LogWarnf ''could not detach datachannel: id: %d''])
      | (rwc, None) \<Rightarrow>
          if length (buf (fst qt)) < capacity (fst qt) + waiting
          then ((fst qt)\<lparr>buf := buf (fst qt) @ [\<lparr>dd_stream = rwc, dd_channel = dc\<rparr>]\<rparr>, snd qt)
          else (fst qt, snd qt @ [LogWarnf ''connection busy, rejecting stream'',
                                  RwcWriteMsg rwc Message_RESET,
                                  RwcClose rwc]))"

text \<open>The same callback, on a connection that holds the queue.\<close>

definition onDataChannel ::
  "nat \<Rightarrow> ReadWriteCloser \<times> err option \<Rightarrow> DataChannel \<Rightarrow> connection \<Rightarrow> connection" where
  "onDataChannel waiting detached dc c =
     (let (q, t) = onOpen waiting detached dc (acceptQueue c, trace c)
      in c\<lparr>acceptQueue := q, trace := t\<rparr>)"

section \<open>Runs of the connection\<close>

text \<open>
  The calls other goroutines and the peer connection's callbacks can make on one
  connection, each taken as one atomic step, and the connection after a list of them.
\<close>

datatype op =
    OpClose
  | OpCloseTimedOut
  | OpStateChange PeerConnectionState
  | OpOpenStream open_env
  | OpAcceptStream accept_case
  | OpAddStream stream
  | OpRemoveStream u16
  | OpDataChannel nat "ReadWriteCloser \<times> err option" DataChannel

fun apply_op :: "op \<Rightarrow> connection \<Rightarrow> connection" where
  "apply_op OpClose c = snd (Close c)"
| "apply_op OpCloseTimedOut c = snd (closeTimedOut c)"
| "apply_op (OpStateChange st) c = onConnectionStateChange st c"
| "apply_op (OpOpenStream env) c = snd (OpenStream env c)"
| "apply_op (OpAcceptStream pick) c = snd (AcceptStream pick c)"
| "apply_op (OpAddStream str) c = snd (addStream str c)"
| "apply_op (OpRemoveStream i) c = removeStream i c"
| "apply_op (OpDataChannel waiting detached dc) c = onDataChannel waiting detached dc c"

definition run :: "op list \<Rightarrow> connection \<Rightarrow> connection" where
  "run ops c = fold apply_op ops c"

text \<open>The reason each close path records, and what it does to a registered stream.\<close>

fun close_reason :: "close_call \<Rightarrow> err" where
  "close_reason CallClose = ErrorsNew ''connection closed''"
| "close_reason CallCloseTimedOut = ConnTimeout ErrConnectionTimeout"

fun terminate :: "close_call \<Rightarrow> stream \<Rightarrow> event" where
  "terminate CallClose s = StreamReset s"
| "terminate CallCloseTimedOut s = StreamSetCloseError s (ConnTimeout ErrConnectionTimeout)"

text \<open>No two entries of the stream table have the same ID.\<close>

definition keys_unique :: "connection \<Rightarrow> bool" where
  "keys_unique c = (case streams c of None \<Rightarrow> True | Some al \<Rightarrow> distinct (map fst al))"

text \<open>
  The events of the trace that belong to the lifecycle: the writes of
  \<^verbatim>\<open>closeErr\<close> and the calls of \<^verbatim>\<open>cancel\<close>.
\<close>

fun is_lifecycle :: "event \<Rightarrow> bool" where
  "is_lifecycle (SetCloseErr e) = True"
| "is_lifecycle CtxCancel = True"
| "is_lifecycle e = False"

definition lifecycle :: "event list \<Rightarrow> event list" where
  "lifecycle t = filter is_lifecycle t"

text \<open>
  What one step can do to the lifecycle of a connection: leave it as it is, or close the
  connection by the path \<open>k\<close>.
\<close>

definition stays :: "connection \<Rightarrow> connection \<Rightarrow> bool" where
  "stays c c' =
     (closeOnce c' = closeOnce c \<and> closeErr c' = closeErr c \<and> ctx_done c' = ctx_done c \<and>
      (streams c' = None) = (streams c = None) \<and>
      lifecycle (trace c') = lifecycle (trace c) \<and>
      count_list (trace c') ScopeDone = count_list (trace c) ScopeDone \<and>
      count_list (trace c') PcClose = count_list (trace c) PcClose)"

definition closes :: "close_call \<Rightarrow> connection \<Rightarrow> connection \<Rightarrow> bool" where
  "closes k c c' =
     (\<not> closeOnce c \<and> closeOnce c' \<and> closeErr c' = Some (close_reason k) \<and> ctx_done c' \<and>
      streams c' = None \<and>
      lifecycle (trace c') = lifecycle (trace c) @ [SetCloseErr (close_reason k), CtxCancel] \<and>
      count_list (trace c') ScopeDone = Suc (count_list (trace c) ScopeDone) \<and>
      count_list (trace c') PcClose = Suc (count_list (trace c) PcClose))"

text \<open>What one step can do to the stream table.\<close>

definition table_step ::
  "(u16 \<times> stream) list option \<Rightarrow> (u16 \<times> stream) list option \<Rightarrow> bool" where
  "table_step t t' =
     (t' = t \<or> t' = None \<or>
      (\<exists>al k s. t = Some al \<and> k \<notin> fst ` set al \<and> t' = Some (al @ [(k, s)])) \<or>
      (\<exists>al i. t = Some al \<and> t' = Some (AList.delete i al)))"

text \<open>A list of calls of the two close entry points, one after the other.\<close>

fun close_many :: "close_call list \<Rightarrow> connection \<Rightarrow> err option list \<times> connection" where
  "close_many [] c = ([], c)"
| "close_many (k # ks) c =
     (let (r, c1) = do_close k c;
          (rs, c2) = close_many ks c1
      in (r # rs, c2))"

text \<open>
  What holds of a connection between atomic steps: either it is open (the Once unused,
  no close error, the signal not fired, the table not nil, no teardown call made), or it
  is closed (the Once used, a close error recorded, the signal fired, the table nil,
  the close error written once and before the one cancel, one \<^verbatim>\<open>pc.Close\<close> and one
  \<^verbatim>\<open>scope.Done\<close>).
\<close>

definition conn_inv :: "connection \<Rightarrow> bool" where
  "conn_inv c =
     (if closeOnce c
      then ctx_done c \<and> streams c = None \<and>
           (case closeErr c of
              None \<Rightarrow> False
            | Some e \<Rightarrow> lifecycle (trace c) = [SetCloseErr e, CtxCancel]) \<and>
           count_list (trace c) ScopeDone = 1 \<and> count_list (trace c) PcClose = 1
      else \<not> ctx_done c \<and> streams c \<noteq> None \<and> closeErr c = None \<and>
           lifecycle (trace c) = [] \<and>
           count_list (trace c) ScopeDone = 0 \<and> count_list (trace c) PcClose = 0)"

section \<open>A close in progress, interleaved with other calls\<close>

text \<open>
  The goroutine that runs \<^verbatim>\<open>closeOnce.Do(body)\<close>, statement by statement. Its
  position is a number: 0 before \<^verbatim>\<open>Do\<close>; \<open>Suc i\<close> inside the body with \<open>i\<close>
  statements done; beyond the length of the body once \<^verbatim>\<open>Do\<close> has returned. The
  field \<open>closeOnce\<close> is set when the goroutine enters the body. Entering
  \<^verbatim>\<open>Do\<close> on a used Once skips the body; \<^verbatim>\<open>sync.Once\<close> lets no second goroutine
  into the body, so one such goroutine is enough. A schedule lets this goroutine take its
  next statement, or lets some other call on the connection happen as one atomic step.
\<close>

definition closer_step :: "(frame \<Rightarrow> frame) list \<Rightarrow> nat \<times> frame \<Rightarrow> nat \<times> frame" where
  "closer_step body s =
     (case s of (pc, l, c) \<Rightarrow>
        if pc = 0
        then (if closeOnce c then (Suc (length body), l, c)
              else (1, None, c\<lparr>closeOnce := True\<rparr>))
        else if pc \<le> length body then (Suc pc, (body ! (pc - 1)) (l, c))
        else (pc, l, c))"

datatype sched = Closer | Other op

text \<open>
  The calls that go through \<^verbatim>\<open>closeOnce.Do\<close>. While the body is running,
  \<^verbatim>\<open>sync.Once\<close> blocks every other caller of \<^verbatim>\<open>Do\<close> until the body has
  returned: the step of such a call does not happen then.
\<close>

fun calls_Do :: "op \<Rightarrow> bool" where
  "calls_Do OpClose = True"
| "calls_Do OpCloseTimedOut = True"
| "calls_Do (OpStateChange st) =
     (st = PeerConnectionStateFailed \<or> st = PeerConnectionStateClosed)"
| "calls_Do x = False"

definition body_running :: "(frame \<Rightarrow> frame) list \<Rightarrow> nat \<times> frame \<Rightarrow> bool" where
  "body_running body s = (0 < fst s \<and> fst s \<le> length body)"

fun sys_step :: "(frame \<Rightarrow> frame) list \<Rightarrow> sched \<Rightarrow> nat \<times> frame \<Rightarrow> nat \<times> frame" where
  "sys_step body Closer s = closer_step body s"
| "sys_step body (Other x) s =
     (if body_running body s \<and> calls_Do x then s
      else (fst s, fst (snd s), apply_op x (snd (snd s))))"

definition sys_run :: "(frame \<Rightarrow> frame) list \<Rightarrow> sched list \<Rightarrow> nat \<times> frame \<Rightarrow> nat \<times> frame" where
  "sys_run body sch s = fold (sys_step body) sch s"

text \<open>The three stages of the lifecycle, as seen in the state and in the trace.\<close>

definition stage_open :: "connection \<Rightarrow> bool" where
  "stage_open c = (closeErr c = None \<and> \<not> ctx_done c \<and> lifecycle (trace c) = [])"

definition stage_written :: "connection \<Rightarrow> bool" where
  "stage_written c =
     (case closeErr c of
        None \<Rightarrow> False
      | Some e \<Rightarrow> \<not> ctx_done c \<and> lifecycle (trace c) = [SetCloseErr e])"

definition stage_cancelled :: "connection \<Rightarrow> bool" where
  "stage_cancelled c =
     (case closeErr c of
        None \<Rightarrow> False
      | Some e \<Rightarrow> ctx_done c \<and> lifecycle (trace c) = [SetCloseErr e, CtxCancel])"

definition sys_inv :: "nat \<times> frame \<Rightarrow> bool" where
  "sys_inv s =
     (case s of (pc, l, c) \<Rightarrow>
        if pc = 0 then (if closeOnce c then stage_cancelled c else stage_open c)
        else if pc = 1 then closeOnce c \<and> stage_open c
        else if pc = 2 then closeOnce c \<and> stage_written c
        else closeOnce c \<and> stage_cancelled c)"

text \<open>
  How many times \<^verbatim>\<open>pc.Close\<close> and \<^verbatim>\<open>scope.Done\<close> have been called, by the
  position of the closing goroutine.
\<close>

definition sys_counts :: "nat \<times> frame \<Rightarrow> bool" where
  "sys_counts s =
     (case s of (pc, l, c) \<Rightarrow>
        (pc = 0 \<or> closeOnce c) \<and>
        (count_list (trace c) PcClose, count_list (trace c) ScopeDone) =
          (if pc = 0 then (if closeOnce c then (1, 1) else (0, 0))
           else if pc \<le> 5 then (0, 0)
           else if pc = 6 then (1, 0)
           else (1, 1)))"

section \<open>Counting the calls of OpenStream\<close>

text \<open>
  The value the constructor stores in the counter for each direction, as an integer, and
  the number of \<^verbatim>\<open>OpenStream\<close> calls in a list of steps.
\<close>

fun first_id :: "Direction \<Rightarrow> int" where
  "first_id DirInbound = 1"
| "first_id DirOutbound = 2"
| "first_id DirUnknown = 0"

fun is_open_call :: "op \<Rightarrow> bool" where
  "is_open_call (OpOpenStream env) = True"
| "is_open_call x = False"

definition opens :: "op list \<Rightarrow> nat" where
  "opens ops = length (filter is_open_call ops)"

section \<open>Example values\<close>

text \<open>\<^verbatim>\<open>const maxAcceptQueueLen = 256\<close>\<close>

definition maxAcceptQueueLen :: int where
  "maxAcceptQueueLen = 256"

text \<open>A length the runtime of the examples allocates at most.\<close>

definition maxChanLen :: int where
  "maxChanLen = 2 ^ 31"

text \<open>
  The connection \<^verbatim>\<open>NewWebRTCConnection\<close> returns on a connected peer connection,
  with an empty accept queue of the length above.
\<close>

definition fresh :: "Direction \<Rightarrow> connection" where
  "fresh d =
     the (fst (NewWebRTCConnection d PeerConnectionStateConnected
                 (the (SetupDataChannelQueue maxChanLen maxAcceptQueueLen))))"

text \<open>The stream made for the channel with ID \<open>i\<close> and the byte stream with handle \<open>i\<close>.\<close>

definition stream_of :: "u16 \<Rightarrow> stream" where
  "stream_of i = newStream (DataChannel i) (Some (unat i)) i"

text \<open>
  Surroundings of an \<^verbatim>\<open>OpenStream\<close> call with no racing close: one in which the
  channel is created and opens with the byte stream \<open>h\<close>, and one in which the peer
  connection refuses to create the channel.
\<close>

definition env_opened :: "nat \<Rightarrow> open_env" where
  "env_opened h =
     \<lparr>create_err = None, ctx_err = None, on_open = Some (Some h, None), pick_order = [],
      race_in_select = None, race_before_add = None\<rparr>"

definition env_refused :: open_env where
  "env_refused =
     \<lparr>create_err = Some (Foreign ''create failed''), ctx_err = None, on_open = None,
      pick_order = [], race_in_select = None, race_before_add = None\<rparr>"

section \<open>Basic facts\<close>

lemma emit_fields [simp]:
  "closeOnce (emit e c) = closeOnce c"
  "closeErr (emit e c) = closeErr c"
  "streams (emit e c) = streams c"
  "nextStreamID (emit e c) = nextStreamID c"
  "acceptQueue (emit e c) = acceptQueue c"
  "ctx_done (emit e c) = ctx_done c"
  "trace (emit e c) = trace c @ [e]"
  by (simp_all add: emit_def)

lemma removeStream_result:
  "removeStream i c = c\<lparr>streams := map_option (AList.delete i) (streams c)\<rparr>"
  by (simp add: removeStream_def split: option.splits)

lemma stream_Close_fields [simp]:
  "closeOnce (stream_Close str c) = closeOnce c"
  "closeErr (stream_Close str c) = closeErr c"
  "nextStreamID (stream_Close str c) = nextStreamID c"
  "acceptQueue (stream_Close str c) = acceptQueue c"
  "ctx_done (stream_Close str c) = ctx_done c"
  "trace (stream_Close str c) = trace c @ [StreamClose str]"
  "streams (stream_Close str c) = map_option (AList.delete (str_onDone str)) (streams c)"
  by (simp_all add: stream_Close_def removeStream_result)

lemma fold_stream_Reset:
  "fold stream_Reset xs c =
     c\<lparr>trace := trace c @ map StreamReset xs,
       streams := map_option (fold (\<lambda>s. AList.delete (str_onDone s)) xs) (streams c)\<rparr>"
proof (induction xs arbitrary: c)
  case Nil
  then show ?case by (simp add: option.map_ident)
next
  case (Cons x xs)
  have "fold stream_Reset (x # xs) c = fold stream_Reset xs (stream_Reset x c)"
    by simp
  also have "\<dots> = (stream_Reset x c)
      \<lparr>trace := trace (stream_Reset x c) @ map StreamReset xs,
        streams := map_option (fold (\<lambda>s. AList.delete (str_onDone s)) xs)
                     (streams (stream_Reset x c))\<rparr>"
    by (rule Cons.IH)
  also have "\<dots> = c
      \<lparr>trace := trace c @ map StreamReset (x # xs),
        streams := map_option (fold (\<lambda>s. AList.delete (str_onDone s)) (x # xs)) (streams c)\<rparr>"
    by (cases "streams c") (simp_all add: stream_Reset_def removeStream_result emit_def)
  finally show ?case .
qed

lemma fold_stream_setCloseError:
  "fold (stream_setCloseError e) xs c =
     c\<lparr>trace := trace c @ map (\<lambda>s. StreamSetCloseError s e) xs\<rparr>"
  by (induction xs arbitrary: c) (simp_all add: stream_setCloseError_def emit_def)

lemma Close_open:
  "\<not> closeOnce c \<Longrightarrow> snd (Close c) =
     c\<lparr>closeOnce := True, closeErr := Some (ErrorsNew ''connection closed''), ctx_done := True,
       streams := None,
       trace := trace c @ [SetCloseErr (ErrorsNew ''connection closed''), CtxCancel]
          @ map StreamReset (range_streams (streams c)) @ [PcClose, ScopeDone]\<rparr>"
  by (simp add: Close_def closeOnce_Do_def run_body_def Close_body_def set_closeErr_def cancel_def
      take_streams_def reset_all_def pc_Close_def scope_Done_def fold_stream_Reset emit_def)

lemma closeTimedOut_open:
  "\<not> closeOnce c \<Longrightarrow> snd (closeTimedOut c) =
     c\<lparr>closeOnce := True, closeErr := Some (ConnTimeout ErrConnectionTimeout), ctx_done := True,
       streams := None,
       trace := trace c @ [SetCloseErr (ConnTimeout ErrConnectionTimeout), CtxCancel]
          @ map (\<lambda>s. StreamSetCloseError s (ConnTimeout ErrConnectionTimeout))
              (range_streams (streams c))
          @ [PcClose, ScopeDone]\<rparr>"
  by (simp add: closeTimedOut_def closeOnce_Do_def run_body_def closeTimedOut_body_def
      set_closeErr_def cancel_def take_streams_def setCloseError_all_def pc_Close_def
      scope_Done_def fold_stream_setCloseError emit_def)

lemma do_close_open:
  "\<not> closeOnce c \<Longrightarrow> snd (do_close k c) =
     c\<lparr>closeOnce := True, closeErr := Some (close_reason k), ctx_done := True,
       streams := None,
       trace := trace c @ [SetCloseErr (close_reason k), CtxCancel]
          @ map (terminate k) (range_streams (streams c)) @ [PcClose, ScopeDone]\<rparr>"
proof (cases k)
  case CallClose
  have "map (terminate CallClose) = map StreamReset"
    by (rule arg_cong [where f = map]) (simp add: fun_eq_iff)
  then show "\<not> closeOnce c \<Longrightarrow> ?thesis"
    using CallClose by (simp add: Close_open)
next
  case CallCloseTimedOut
  have "map (terminate CallCloseTimedOut) =
        map (\<lambda>s. StreamSetCloseError s (ConnTimeout ErrConnectionTimeout))"
    by (rule arg_cong [where f = map]) (simp add: fun_eq_iff)
  then show "\<not> closeOnce c \<Longrightarrow> ?thesis"
    using CallCloseTimedOut by (simp add: closeTimedOut_open)
qed

lemma do_close_used: "closeOnce c \<Longrightarrow> snd (do_close k c) = c"
  by (cases k) (simp_all add: Close_def closeTimedOut_def closeOnce_Do_def)

lemma do_close_nil [simp]: "fst (do_close k c) = None"
  by (cases k) (simp_all add: Close_def closeTimedOut_def)

lemma update_fresh: "k \<notin> fst ` set al \<Longrightarrow> AList.update k v al = al @ [(k, v)]"
  by (induction al) auto

lemma addStream_result:
  "addStream str c =
     (case streams c of
        None \<Rightarrow> (closeErr c, c)
      | Some al \<Rightarrow>
          if str_id str \<in> fst ` set al then (Some (ErrorsNew ''stream ID already exists''), c)
          else (None, c\<lparr>streams := Some (al @ [(str_id str, str)])\<rparr>))"
proof (cases "streams c")
  case None
  then show ?thesis by (simp add: addStream_def)
next
  case (Some al)
  show ?thesis
  proof (cases "map_of al (str_id str)")
    case None
    then have "str_id str \<notin> fst ` set al"
      by (simp add: map_of_eq_None_iff)
    then show ?thesis
      using Some None by (simp add: addStream_def update_fresh)
  next
    case (Some old)
    then have "str_id str \<in> fst ` set al"
      using map_of_eq_None_iff [of al "str_id str"] by simp
    then show ?thesis
      using \<open>streams c = Some al\<close> Some by (simp add: addStream_def)
  qed
qed


lemma racing_used: "closeOnce c \<Longrightarrow> racing r c = c"
  by (cases r) (simp_all add: do_close_used)

lemma racing_open:
  "\<not> closeOnce c \<Longrightarrow> racing (Some k) c =
     c\<lparr>closeOnce := True, closeErr := Some (close_reason k), ctx_done := True,
       streams := None,
       trace := trace c @ [SetCloseErr (close_reason k), CtxCancel]
          @ map (terminate k) (range_streams (streams c)) @ [PcClose, ScopeDone]\<rparr>"
  by (simp add: do_close_open)

lemma racing_nextStreamID [simp]: "nextStreamID (racing r c) = nextStreamID c"
  by (cases r; cases "closeOnce c") (simp_all add: do_close_open do_close_used)

lemma racing_acceptQueue [simp]: "acceptQueue (racing r c) = acceptQueue c"
  by (cases r; cases "closeOnce c") (simp_all add: do_close_open do_close_used)

lemma addStream_nextStreamID [simp]: "nextStreamID (snd (addStream str c)) = nextStreamID c"
  by (simp add: addStream_result split: option.splits)

lemma OpenStream_nextStreamID:
  "nextStreamID (snd (OpenStream env c)) =
     (if IsClosed c then nextStreamID c else nextStreamID c + 2)"
  by (simp add: OpenStream_def nextStreamID_Add_def Let_def stream_Close_fields
      case_prod_beta split: option.splits outcome.splits)

lemma lifecycle_terminate [simp]: "filter is_lifecycle (map (terminate k) xs) = []"
  by (cases k) (induction xs, simp_all)+

lemma count_terminate [simp]:
  "count_list (map (terminate k) xs) ScopeDone = 0"
  "count_list (map (terminate k) xs) PcClose = 0"
  by (cases k; induction xs; simp)+

lemma stays_refl: "stays c c"
  by (simp add: stays_def)

lemma do_close_effect:
  "stays c (snd (do_close k c)) \<or> closes k c (snd (do_close k c))"
  by (cases "closeOnce c")
     (simp_all add: do_close_used do_close_open closes_def lifecycle_def stays_refl)

lemma addStream_fields [simp]:
  "closeOnce (snd (addStream str c)) = closeOnce c"
  "closeErr (snd (addStream str c)) = closeErr c"
  "ctx_done (snd (addStream str c)) = ctx_done c"
  "trace (snd (addStream str c)) = trace c"
  "acceptQueue (snd (addStream str c)) = acceptQueue c"
  by (simp_all add: addStream_result split: option.splits)

lemma addStream_closed: "streams c = None \<Longrightarrow> addStream str c = (closeErr c, c)"
  by (simp add: addStream_result)

lemma addStream_table_None [simp]:
  "(streams (snd (addStream str c)) = None) = (streams c = None)"
  by (simp add: addStream_result split: option.splits)

lemma OpenStream_effect:
  "stays c (snd (OpenStream env c)) \<or> (\<exists>k. closes k c (snd (OpenStream env c)))"
proof (cases "closeOnce c")
  case True
  then have "stays c (snd (OpenStream env c))"
    by (simp add: OpenStream_def nextStreamID_Add_def Let_def stream_Close_fields racing_used
        stays_def lifecycle_def case_prod_beta split: option.splits outcome.splits)
  then show ?thesis ..
next
  case False
  then show ?thesis
    apply (cases "race_in_select env"; cases "race_before_add env")
    apply (simp_all add: OpenStream_def nextStreamID_Add_def Let_def stream_Close_fields
        do_close_used do_close_open stays_def closes_def lifecycle_def case_prod_beta
        addStream_closed
        split: option.splits outcome.splits)
    apply blast+
    done
qed

lemma AcceptStream_effect: "stays c (snd (AcceptStream pick c))"
  by (simp add: AcceptStream_def Let_def stream_Close_fields stays_def lifecycle_def
      case_prod_beta split: list.splits option.splits)

lemma addStream_effect: "stays c (snd (addStream str c))"
  by (simp add: stays_def)

lemma removeStream_effect: "stays c (removeStream i c)"
  by (simp add: removeStream_result stays_def)

lemma onDataChannel_effect: "stays c (onDataChannel waiting detached dc c)"
  by (cases detached)
     (simp add: onDataChannel_def onOpen_def stays_def lifecycle_def split: option.splits)

lemma apply_op_effect: "stays c (apply_op x c) \<or> (\<exists>k. closes k c (apply_op x c))"
proof (cases x)
  case OpClose
  then show ?thesis
    using do_close_effect [of c CallClose] by (auto simp: stays_refl)
next
  case OpCloseTimedOut
  then show ?thesis
    using do_close_effect [of c CallCloseTimedOut] by (auto simp: stays_refl)
next
  case (OpStateChange st)
  then show ?thesis
    using do_close_effect [of c CallCloseTimedOut]
    by (auto simp: stays_refl onConnectionStateChange_def)
next
  case (OpOpenStream env)
  then show ?thesis by (simp add: OpenStream_effect)
next
  case (OpAcceptStream pick)
  then show ?thesis by (simp add: AcceptStream_effect)
next
  case (OpAddStream str)
  then show ?thesis by (simp add: addStream_effect)
next
  case (OpRemoveStream i)
  then show ?thesis by (simp add: removeStream_effect)
next
  case (OpDataChannel waiting detached dc)
  then show ?thesis by (simp add: onDataChannel_effect)
qed

lemma table_step_simps [simp]: "table_step t t" "table_step t None"
  by (simp_all add: table_step_def)

lemma addStream_table:
  "streams c = t \<Longrightarrow> table_step t (streams (snd (addStream str c)))"
  by (auto simp: addStream_result table_step_def split: option.splits)

lemma do_close_table: "table_step (streams c) (streams (snd (do_close k c)))"
  by (cases "closeOnce c") (simp_all add: do_close_used do_close_open)

lemma addStream_refused_table:
  "streams c = t \<Longrightarrow> fst (addStream str c) = Some e \<Longrightarrow>
   table_step t (map_option (AList.delete i) (streams (snd (addStream str c))))"
  by (auto simp: addStream_result table_step_def split: option.splits if_splits)

lemma OpenStream_table: "table_step (streams c) (streams (snd (OpenStream env c)))"
proof (cases "closeOnce c")
  case True
  then show ?thesis
    by (auto simp: OpenStream_def nextStreamID_Add_def Let_def racing_used
        case_prod_beta addStream_table addStream_refused_table
        split: option.splits outcome.splits)
next
  case False
  then show ?thesis
    apply (cases "race_in_select env"; cases "race_before_add env")
    apply (auto simp: OpenStream_def nextStreamID_Add_def Let_def
        do_close_used do_close_open case_prod_beta addStream_closed addStream_table
        addStream_refused_table split: option.splits outcome.splits)
    done
qed

lemma AcceptStream_table: "table_step (streams c) (streams (snd (AcceptStream pick c)))"
  by (auto simp: AcceptStream_def Let_def case_prod_beta addStream_table
      addStream_refused_table split: list.splits option.splits)

lemma removeStream_table: "table_step (streams c) (streams (removeStream i c))"
  by (cases "streams c") (auto simp: removeStream_result table_step_def)

lemma onDataChannel_streams [simp]: "streams (onDataChannel waiting detached dc c) = streams c"
  by (simp add: onDataChannel_def case_prod_beta)

lemma apply_op_table: "table_step (streams c) (streams (apply_op x c))"
proof (cases x)
  case OpClose
  then show ?thesis using do_close_table [of c CallClose] by simp
next
  case OpCloseTimedOut
  then show ?thesis using do_close_table [of c CallCloseTimedOut] by simp
next
  case (OpStateChange st)
  then show ?thesis
    using do_close_table [of c CallCloseTimedOut] by (simp add: onConnectionStateChange_def)
next
  case (OpOpenStream env)
  then show ?thesis by (simp add: OpenStream_table)
next
  case (OpAcceptStream pick)
  then show ?thesis by (simp add: AcceptStream_table)
next
  case (OpAddStream str)
  then show ?thesis by (simp add: addStream_table)
next
  case (OpRemoveStream i)
  then show ?thesis by (simp add: removeStream_table)
next
  case (OpDataChannel waiting detached dc)
  then show ?thesis by simp
qed

lemma table_step_None: "table_step None t' \<Longrightarrow> t' = None"
  by (auto simp: table_step_def)

lemma table_step_distinct:
  "table_step (Some al) (Some al') \<Longrightarrow> distinct (map fst al) \<Longrightarrow> distinct (map fst al')"
  by (auto simp: table_step_def distinct_delete)

lemma apply_op_closed: "streams c = None \<Longrightarrow> streams (apply_op x c) = None"
  using apply_op_table [of c x] by (auto dest: table_step_None)

lemma apply_op_keys_unique: "keys_unique c \<Longrightarrow> keys_unique (apply_op x c)"
  using apply_op_table [of c x]
  by (auto simp: keys_unique_def split: option.splits dest: table_step_None table_step_distinct)

lemma run_Nil [simp]: "run [] c = c"
  by (simp add: run_def)

lemma run_Cons [simp]: "run (x # xs) c = run xs (apply_op x c)"
  by (simp add: run_def)

lemma run_append: "run (xs @ ys) c = run ys (run xs c)"
  by (simp add: run_def)

lemma run_closed: "streams c = None \<Longrightarrow> streams (run ops c) = None"
  by (induction ops arbitrary: c) (simp_all add: apply_op_closed)

lemma run_keys_unique: "keys_unique c \<Longrightarrow> keys_unique (run ops c)"
  by (induction ops arbitrary: c) (simp_all add: apply_op_keys_unique)

lemma fresh_eq:
  "fresh d = \<lparr>closeOnce = False, closeErr = None, streams = Some [],
      nextStreamID = (case d of DirInbound \<Rightarrow> 1 | DirOutbound \<Rightarrow> 2 | DirUnknown \<Rightarrow> 0),
      acceptQueue = \<lparr>buf = [], capacity = 256\<rparr>, ctx_done = False, trace = []\<rparr>"
  by (simp add: fresh_def NewWebRTCConnection_def SetupDataChannelQueue_def
      maxAcceptQueueLen_def maxChanLen_def)

lemma stream_of_id [simp]: "str_id (stream_of i) = i"
  by (simp add: stream_of_def newStream_def)

section \<open>The stream table: insertion and removal\<close>

text \<open>
  Claim C7. For every call of \<^verbatim>\<open>addStream\<close>: if the table is already the closed
  sentinel (nil), it returns the recorded close error and leaves the connection as it is;
  if the stream's ID is already a key of the table, it returns the collision error and
  leaves the connection as it is; otherwise it returns nil and the table maps the
  stream's ID to the stream and is otherwise as before. Consequently, over every list of
  steps of the connection, a closed table stays closed (nothing is ever added to it) and
  a table with unique IDs keeps unique IDs.
\<close>

theorem addStream_table_cases:
  "(streams c = None \<longrightarrow> addStream str c = (closeErr c, c))
   \<and> (\<forall>al. streams c = Some al \<and> str_id str \<in> fst ` set al \<longrightarrow>
          addStream str c = (Some (ErrorsNew ''stream ID already exists''), c))
   \<and> (\<forall>al. streams c = Some al \<and> str_id str \<notin> fst ` set al \<longrightarrow>
          (\<exists>al'. addStream str c = (None, c\<lparr>streams := Some al'\<rparr>) \<and>
                 map_of al' = (map_of al)(str_id str \<mapsto> str)))
   \<and> (streams c = None \<longrightarrow> streams (run ops c) = None)
   \<and> (keys_unique c \<longrightarrow> keys_unique (run ops c))"
proof -
  have "\<exists>al'. addStream str c = (None, c\<lparr>streams := Some al'\<rparr>) \<and>
               map_of al' = (map_of al)(str_id str \<mapsto> str)"
    if "streams c = Some al" and "str_id str \<notin> fst ` set al" for al
  proof -
    have "map_of (AList.update (str_id str) str al) = (map_of al)(str_id str \<mapsto> str)"
      by (rule update_conv')
    moreover have "addStream str c = (None, c\<lparr>streams := Some (AList.update (str_id str) str al)\<rparr>)"
      using that by (simp add: addStream_result update_fresh)
    ultimately show ?thesis by blast
  qed
  then show ?thesis
    by (simp add: addStream_result run_closed run_keys_unique)
qed

theorem addStream_table_cases_witness:
  "addStream (stream_of 1) (snd (Close (fresh DirOutbound))) =
     (Some (ErrorsNew ''connection closed''), snd (Close (fresh DirOutbound)))
   \<and> addStream (stream_of 1) (snd (addStream (stream_of 1) (fresh DirOutbound))) =
     (Some (ErrorsNew ''stream ID already exists''),
      snd (addStream (stream_of 1) (fresh DirOutbound)))
   \<and> addStream (stream_of 1) (fresh DirOutbound) =
     (None, (fresh DirOutbound)\<lparr>streams := Some [(1, stream_of 1)]\<rparr>)
   \<and> streams (run [OpAddStream (stream_of 3)] (snd (Close (fresh DirOutbound)))) = None
   \<and> keys_unique (run [OpAddStream (stream_of 1), OpAddStream (stream_of 1)]
        (fresh DirOutbound))"
  using addStream_table_cases [of "snd (Close (fresh DirOutbound))" "stream_of 1"
      "[OpAddStream (stream_of 3)]"]
    addStream_table_cases [of "snd (addStream (stream_of 1) (fresh DirOutbound))" "stream_of 1"
      "[]"]
    addStream_table_cases [of "fresh DirOutbound" "stream_of 1"
      "[OpAddStream (stream_of 1), OpAddStream (stream_of 1)]"]
  by (simp add: Close_open fresh_eq addStream_result keys_unique_def)

text \<open>
  Claim C9. For every call \<^verbatim>\<open>removeStream(id)\<close> in any state of the table: the
  table afterwards has no entry for the ID and every other ID is mapped as before; the
  call changes nothing at all when the table is already closed or the ID is not
  registered; and it leaves the Once, the close error, the lifecycle signal, the ID
  counter, the accept queue and the trace of calls as they are. The function has no
  result, so there is no error to return.
\<close>

theorem removeStream_frame:
  "closeOnce (removeStream i c) = closeOnce c
   \<and> closeErr (removeStream i c) = closeErr c
   \<and> ctx_done (removeStream i c) = ctx_done c
   \<and> nextStreamID (removeStream i c) = nextStreamID c
   \<and> acceptQueue (removeStream i c) = acceptQueue c
   \<and> trace (removeStream i c) = trace c
   \<and> (streams c = None \<longrightarrow> removeStream i c = c)
   \<and> (\<forall>al. streams c = Some al \<longrightarrow>
         (\<exists>al'. streams (removeStream i c) = Some al' \<and> map_of al' i = None \<and>
                (\<forall>j. j \<noteq> i \<longrightarrow> map_of al' j = map_of al j)))
   \<and> (\<forall>al. streams c = Some al \<and> i \<notin> fst ` set al \<longrightarrow> removeStream i c = c)"
  by (simp add: removeStream_result delete_conv')

theorem removeStream_frame_witness:
  "removeStream 1 (snd (Close (fresh DirInbound))) = snd (Close (fresh DirInbound))
   \<and> removeStream 5 (run [OpAddStream (stream_of 1), OpAddStream (stream_of 3)] (fresh DirInbound))
       = run [OpAddStream (stream_of 1), OpAddStream (stream_of 3)] (fresh DirInbound)
   \<and> streams (removeStream 1
         (run [OpAddStream (stream_of 1), OpAddStream (stream_of 3)] (fresh DirInbound)))
       = Some [(3, stream_of 3)]"
  using removeStream_frame [of 1 "snd (Close (fresh DirInbound))"]
    removeStream_frame [of 5
      "run [OpAddStream (stream_of 1), OpAddStream (stream_of 3)] (fresh DirInbound)"]
    removeStream_frame [of 1
      "run [OpAddStream (stream_of 1), OpAddStream (stream_of 3)] (fresh DirInbound)"]
  by (simp add: Close_open fresh_eq addStream_result removeStream_result)

section \<open>Invariants of the lifecycle\<close>

lemma NewWebRTCConnection_inv:
  "NewWebRTCConnection d st q = (Some c0, e0, t0) \<Longrightarrow> conn_inv c0"
  by (auto simp: NewWebRTCConnection_def conn_inv_def lifecycle_def Let_def split: if_splits)

lemma conn_inv_step:
  "conn_inv c \<Longrightarrow> stays c c' \<or> (\<exists>k. closes k c c') \<Longrightarrow> conn_inv c'"
  by (auto simp: conn_inv_def stays_def closes_def split: option.splits if_splits)

lemma run_inv: "conn_inv c \<Longrightarrow> conn_inv (run ops c)"
  by (induction ops arbitrary: c) (simp_all add: conn_inv_step [OF _ apply_op_effect])

lemma apply_op_once: "closeOnce c \<Longrightarrow> closeOnce (apply_op x c)"
  using apply_op_effect [of c x] by (auto simp: stays_def closes_def)

lemma run_once: "closeOnce c \<Longrightarrow> closeOnce (run ops c)"
  by (induction ops arbitrary: c) (simp_all add: apply_op_once)

lemma close_many_nil: "fst (close_many ks c) = replicate (length ks) None"
  by (induction ks arbitrary: c) (simp_all add: case_prod_beta)

lemma close_many_used: "closeOnce c \<Longrightarrow> snd (close_many ks c) = c"
  by (induction ks arbitrary: c) (simp_all add: case_prod_beta do_close_used)

lemma close_many_first:
  "\<not> closeOnce c \<Longrightarrow> snd (close_many (k # ks) c) = snd (do_close k c)"
  by (simp add: case_prod_beta close_many_used do_close_open)

lemma close_many_run: "\<exists>ops. snd (close_many ks c) = run ops c"
proof (induction ks arbitrary: c)
  case Nil
  have "snd (close_many [] c) = run [] c" by simp
  then show ?case ..
next
  case (Cons k ks)
  obtain ops where ops: "snd (close_many ks (snd (do_close k c))) = run ops (snd (do_close k c))"
    using Cons by blast
  have "snd (do_close k c) = apply_op (case k of CallClose \<Rightarrow> OpClose | CallCloseTimedOut \<Rightarrow> OpCloseTimedOut) c"
    by (cases k) simp_all
  then have "snd (close_many (k # ks) c) =
      run ((case k of CallClose \<Rightarrow> OpClose | CallCloseTimedOut \<Rightarrow> OpCloseTimedOut) # ops) c"
    using ops by (simp add: case_prod_beta)
  then show ?case ..
qed

lemma close_many_closes: "ks \<noteq> [] \<Longrightarrow> closeOnce (snd (close_many ks c))"
  by (cases ks; cases "closeOnce c")
     (simp_all add: case_prod_beta close_many_used do_close_open do_close_used)

section \<open>Closing the connection\<close>

text \<open>
  Claim C1. Close is idempotent and free of errors. Take a connection made by
  \<^verbatim>\<open>NewWebRTCConnection\<close>, after any list of steps, and any non-empty list of calls
  of \<^verbatim>\<open>Close\<close> and \<^verbatim>\<open>closeTimedOut\<close> in any order. Every call returns nil.
  Afterwards, and after any further steps, the trace holds exactly one
  \<^verbatim>\<open>scope.Done\<close>, one \<^verbatim>\<open>pc.Close\<close>, one write of the close error and one
  cancel, the lifecycle context is cancelled (\<^verbatim>\<open>ctx.Done()\<close> is closed and
  \<^verbatim>\<open>IsClosed\<close> returns true), the Once is used and the table is nil. If the
  connection was already closed the calls change nothing. If it was open, the state after
  all the calls is the state after the first one (the later calls do no teardown at all),
  the recorded reason is the one of the first call, the context is cancelled, and the
  first call's teardown is: write the reason, cancel the context, set the table to nil,
  terminate every stream that was registered, close the peer connection, release the
  scope.
\<close>

theorem close_idempotent:
  assumes "NewWebRTCConnection d st q = (Some c0, e0, t0)" and "c = run ops c0"
  shows "fst (close_many (k # ks) c) = replicate (Suc (length ks)) None
    \<and> count_list (trace (run ops' (snd (close_many (k # ks) c)))) ScopeDone = 1
    \<and> count_list (trace (run ops' (snd (close_many (k # ks) c)))) PcClose = 1
    \<and> (\<exists>e. lifecycle (trace (run ops' (snd (close_many (k # ks) c)))) = [SetCloseErr e, CtxCancel]
           \<and> closeErr (run ops' (snd (close_many (k # ks) c))) = Some e)
    \<and> streams (run ops' (snd (close_many (k # ks) c))) = None
    \<and> ctx_done (run ops' (snd (close_many (k # ks) c)))
    \<and> IsClosed (run ops' (snd (close_many (k # ks) c)))
    \<and> closeOnce (run ops' (snd (close_many (k # ks) c)))
    \<and> (closeOnce c \<longrightarrow> snd (close_many (k # ks) c) = c)
    \<and> (\<not> closeOnce c \<longrightarrow>
          snd (close_many (k # ks) c) = snd (do_close k c) \<and>
          closeErr (snd (close_many (k # ks) c)) = Some (close_reason k) \<and>
          ctx_done (snd (close_many (k # ks) c)) \<and>
          streams (snd (close_many (k # ks) c)) = None \<and>
          trace (snd (close_many (k # ks) c)) =
            trace c @ [SetCloseErr (close_reason k), CtxCancel]
              @ map (terminate k) (range_streams (streams c)) @ [PcClose, ScopeDone])"
proof -
  let ?c' = "run ops' (snd (close_many (k # ks) c))"
  have "conn_inv c"
    using assms by (simp add: run_inv NewWebRTCConnection_inv)
  moreover obtain ops1 where "snd (close_many (k # ks) c) = run ops1 c"
    using close_many_run by blast
  ultimately have inv: "conn_inv ?c'"
    by (simp add: run_inv)
  have "closeOnce (snd (close_many (k # ks) c))"
    by (rule close_many_closes) simp
  then have "closeOnce ?c'"
    using run_once by blast
  with inv have closed: "count_list (trace ?c') ScopeDone = 1"
    "count_list (trace ?c') PcClose = 1"
    "\<exists>e. lifecycle (trace ?c') = [SetCloseErr e, CtxCancel] \<and> closeErr ?c' = Some e"
    "streams ?c' = None" "ctx_done ?c'" "IsClosed ?c'"
    by (auto simp: conn_inv_def IsClosed_def split: option.splits)
  have first: "snd (close_many (k # ks) c) = snd (do_close k c)" if "\<not> closeOnce c"
    using that by (rule close_many_first)
  show ?thesis
    using closed \<open>closeOnce ?c'\<close> first close_many_nil [of "k # ks" c]
      close_many_used [of c "k # ks"]
    by (simp add: do_close_open)
qed

theorem close_idempotent_witness:
  "fst (close_many [CallClose, CallCloseTimedOut, CallClose]
         (run [OpAddStream (stream_of 1), OpAddStream (stream_of 4)] (fresh DirOutbound)))
     = [None, None, None]
   \<and> trace (snd (close_many [CallClose, CallCloseTimedOut, CallClose]
         (run [OpAddStream (stream_of 1), OpAddStream (stream_of 4)] (fresh DirOutbound))))
     = [SetCloseErr (ErrorsNew ''connection closed''), CtxCancel,
        StreamReset (stream_of 1), StreamReset (stream_of 4), PcClose, ScopeDone]
   \<and> closeErr (snd (close_many [CallCloseTimedOut, CallClose, CallClose]
         (run [OpAddStream (stream_of 1)] (fresh DirOutbound))))
     = Some (ConnTimeout ErrConnectionTimeout)
   \<and> trace (snd (close_many [CallCloseTimedOut, CallClose, CallClose]
         (run [OpAddStream (stream_of 1)] (fresh DirOutbound))))
     = [SetCloseErr (ConnTimeout ErrConnectionTimeout), CtxCancel,
        StreamSetCloseError (stream_of 1) (ConnTimeout ErrConnectionTimeout), PcClose, ScopeDone]
   \<and> ctx_done (snd (close_many [CallClose, CallCloseTimedOut, CallClose]
         (run [OpAddStream (stream_of 1), OpAddStream (stream_of 4)] (fresh DirOutbound))))
   \<and> IsClosed (snd (close_many [CallClose, CallCloseTimedOut, CallClose]
         (run [OpAddStream (stream_of 1), OpAddStream (stream_of 4)] (fresh DirOutbound))))
   \<and> \<not> IsClosed
         (run [OpAddStream (stream_of 1), OpAddStream (stream_of 4)] (fresh DirOutbound))"
proof -
  let ?c1 = "run [OpAddStream (stream_of 1), OpAddStream (stream_of 4)] (fresh DirOutbound)"
  let ?c2 = "run [OpAddStream (stream_of 1)] (fresh DirOutbound)"
  have new: "NewWebRTCConnection DirOutbound PeerConnectionStateConnected
      (the (SetupDataChannelQueue maxChanLen maxAcceptQueueLen)) = (Some (fresh DirOutbound), None, [])"
    by (simp add: fresh_def NewWebRTCConnection_def)
  have open1: "\<not> closeOnce ?c1" and open2: "\<not> closeOnce ?c2"
    by (simp_all add: fresh_eq)
  note first = close_idempotent [OF new refl,
      where ops = "[OpAddStream (stream_of 1), OpAddStream (stream_of 4)]"
        and k = CallClose and ks = "[CallCloseTimedOut, CallClose]" and ops' = "[]"]
  note second = close_idempotent [OF new refl, where ops = "[OpAddStream (stream_of 1)]"
        and k = CallCloseTimedOut and ks = "[CallClose, CallClose]" and ops' = "[]"]
  have "fst (close_many [CallClose, CallCloseTimedOut, CallClose] ?c1) =
      replicate (Suc (length [CallCloseTimedOut, CallClose])) None"
    using first by blast
  moreover have "trace (snd (close_many [CallClose, CallCloseTimedOut, CallClose] ?c1)) =
      trace ?c1 @ [SetCloseErr (close_reason CallClose), CtxCancel]
        @ map (terminate CallClose) (range_streams (streams ?c1)) @ [PcClose, ScopeDone]"
    using first open1 by blast
  moreover have "closeErr (snd (close_many [CallCloseTimedOut, CallClose, CallClose] ?c2)) =
      Some (close_reason CallCloseTimedOut)"
    using second open2 by blast
  moreover have "trace (snd (close_many [CallCloseTimedOut, CallClose, CallClose] ?c2)) =
      trace ?c2 @ [SetCloseErr (close_reason CallCloseTimedOut), CtxCancel]
        @ map (terminate CallCloseTimedOut) (range_streams (streams ?c2)) @ [PcClose, ScopeDone]"
    using second open2 by blast
  moreover have "ctx_done (run [] (snd (close_many [CallClose, CallCloseTimedOut, CallClose] ?c1)))"
    using first by blast
  moreover have "IsClosed (run [] (snd (close_many [CallClose, CallCloseTimedOut, CallClose] ?c1)))"
    using first by blast
  moreover have "\<not> IsClosed ?c1"
    by (simp add: fresh_eq addStream_result IsClosed_def)
  ultimately show ?thesis
    by (simp del: close_many.simps
        add: fresh_eq addStream_result range_streams_def)
qed

text \<open>
  Claim C5. On a connection whose Once is unused, \<^verbatim>\<open>closeTimedOut\<close> calls
  \<^verbatim>\<open>setCloseError\<close> with the timeout error on every stream of the table, and on
  nothing else, while \<^verbatim>\<open>Close\<close> calls \<^verbatim>\<open>Reset\<close> on every stream of the
  table; in both paths every registered stream is terminated. The timeout error reports
  \<^verbatim>\<open>Timeout() = true\<close>, \<^verbatim>\<open>Temporary() = false\<close> and the message
  "connection timeout".
\<close>

theorem close_paths_streams:
  assumes "\<not> closeOnce c"
  shows "trace (snd (closeTimedOut c)) =
       trace c @ [SetCloseErr (ConnTimeout ErrConnectionTimeout), CtxCancel]
         @ map (\<lambda>s. StreamSetCloseError s (ConnTimeout ErrConnectionTimeout))
             (range_streams (streams c))
         @ [PcClose, ScopeDone]
   \<and> trace (snd (Close c)) =
       trace c @ [SetCloseErr (ErrorsNew ''connection closed''), CtxCancel]
         @ map StreamReset (range_streams (streams c)) @ [PcClose, ScopeDone]
   \<and> (\<forall>al i s. streams c = Some al \<and> (i, s) \<in> set al \<longrightarrow>
         StreamSetCloseError s (ConnTimeout ErrConnectionTimeout)
           \<in> set (trace (snd (closeTimedOut c))) \<and>
         StreamReset s \<in> set (trace (snd (Close c))))
   \<and> errConnectionTimeout_Timeout ErrConnectionTimeout
   \<and> \<not> errConnectionTimeout_Temporary ErrConnectionTimeout
   \<and> errConnectionTimeout_Error ErrConnectionTimeout = ''connection timeout''
   \<and> Error (ConnTimeout ErrConnectionTimeout) = ''connection timeout''"
  using assms
  by (auto simp: closeTimedOut_open Close_open range_streams_def image_iff
      intro!: bexI [where x = "(i, s)" for i s])

theorem close_paths_streams_witness:
  "trace (snd (closeTimedOut
      (run [OpAddStream (stream_of 1), OpAddStream (stream_of 3)] (fresh DirInbound)))) =
     [SetCloseErr (ConnTimeout ErrConnectionTimeout), CtxCancel,
      StreamSetCloseError (stream_of 1) (ConnTimeout ErrConnectionTimeout),
      StreamSetCloseError (stream_of 3) (ConnTimeout ErrConnectionTimeout),
      PcClose, ScopeDone]
   \<and> trace (snd (Close
      (run [OpAddStream (stream_of 1), OpAddStream (stream_of 3)] (fresh DirInbound)))) =
     [SetCloseErr (ErrorsNew ''connection closed''), CtxCancel,
      StreamReset (stream_of 1), StreamReset (stream_of 3), PcClose, ScopeDone]"
proof -
  let ?c = "run [OpAddStream (stream_of 1), OpAddStream (stream_of 3)] (fresh DirInbound)"
  have "\<not> closeOnce ?c"
    by (simp add: fresh_eq)
  from close_paths_streams [OF this] show ?thesis
    by (simp add: fresh_eq addStream_result range_streams_def)
qed

lemma apply_op_closeErr: "closeOnce c \<Longrightarrow> closeErr (apply_op x c) = closeErr c"
  using apply_op_effect [of c x] by (auto simp: stays_def closes_def)

lemma run_closeErr: "closeOnce c \<Longrightarrow> closeErr (run ops c) = closeErr c"
  by (induction ops arbitrary: c) (simp_all add: apply_op_closeErr apply_op_once)

lemma do_close_once: "closeOnce (snd (do_close k c))"
  by (cases "closeOnce c") (simp_all add: do_close_used do_close_open)

lemma OpenStream_closed:
  "ctx_done c \<Longrightarrow> OpenStream env c = (Returns (None, closeErr c), c)"
  by (simp add: OpenStream_def IsClosed_def)

lemma AcceptStream_closed:
  assumes "ctx_done c" and "streams c = None" and "closeErr c = Some e"
  shows "fst (AcceptStream pick c) = Returns (None, Some e)"
  using assms
  by (simp add: AcceptStream_def Let_def addStream_closed split: list.splits)

text \<open>
  Claim C2. Take a connection made by \<^verbatim>\<open>NewWebRTCConnection\<close>, any list of steps,
  then a completed call of \<^verbatim>\<open>Close\<close> or \<^verbatim>\<open>closeTimedOut\<close>. The connection then
  holds a close error, and after any further steps (among them any number of calls of
  \<^verbatim>\<open>OpenStream\<close> and \<^verbatim>\<open>AcceptStream\<close>, and detached channels arriving in the
  accept queue) every call of \<^verbatim>\<open>OpenStream\<close> and every call of
  \<^verbatim>\<open>AcceptStream\<close> returns no stream and that same error, whichever case the select
  of \<^verbatim>\<open>AcceptStream\<close> picks.
\<close>

theorem calls_after_close:
  assumes "NewWebRTCConnection d st q = (Some c0, e0, t0)"
  shows "\<exists>e. closeErr (snd (do_close k (run ops c0))) = Some e
    \<and> fst (OpenStream env (run ops' (snd (do_close k (run ops c0))))) = Returns (None, Some e)
    \<and> fst (AcceptStream pick (run ops' (snd (do_close k (run ops c0))))) = Returns (None, Some e)"
proof -
  let ?c = "snd (do_close k (run ops c0))"
  have once: "closeOnce ?c"
    by (rule do_close_once)
  have "snd (do_close k (run ops c0)) =
      run (ops @ [case k of CallClose \<Rightarrow> OpClose | CallCloseTimedOut \<Rightarrow> OpCloseTimedOut]) c0"
    by (cases k) (simp_all add: run_append)
  then have "conn_inv ?c"
    using assms by (simp add: run_inv NewWebRTCConnection_inv)
  then have inv: "conn_inv (run ops' ?c)"
    by (rule run_inv)
  have once': "closeOnce (run ops' ?c)"
    using once by (rule run_once)
  have same: "closeErr (run ops' ?c) = closeErr ?c"
    using once by (rule run_closeErr)
  from inv once' obtain e where e: "closeErr (run ops' ?c) = Some e"
    and closed: "ctx_done (run ops' ?c)" "streams (run ops' ?c) = None"
    by (auto simp: conn_inv_def split: option.splits)
  have "fst (OpenStream env (run ops' ?c)) = Returns (None, Some e)"
    using closed e by (simp add: OpenStream_closed)
  moreover have "fst (AcceptStream pick (run ops' ?c)) = Returns (None, Some e)"
    using closed e by (rule AcceptStream_closed)
  ultimately show ?thesis
    using e same by simp
qed

theorem calls_after_close_witness:
  "fst (OpenStream (env_opened 9)
      (run [OpDataChannel 0 (Some 8, None) (DataChannel 4), OpOpenStream (env_opened 5)]
        (snd (do_close CallClose
          (run [OpDataChannel 0 (Some 7, None) (DataChannel 2)] (fresh DirInbound))))))
     = Returns (None, Some (ErrorsNew ''connection closed''))
   \<and> fst (AcceptStream CaseQueue
      (run [OpDataChannel 0 (Some 8, None) (DataChannel 4), OpOpenStream (env_opened 5)]
        (snd (do_close CallClose
          (run [OpDataChannel 0 (Some 7, None) (DataChannel 2)] (fresh DirInbound))))))
     = Returns (None, Some (ErrorsNew ''connection closed''))
   \<and> length (buf (acceptQueue
      (run [OpDataChannel 0 (Some 8, None) (DataChannel 4), OpOpenStream (env_opened 5)]
        (snd (do_close CallClose
          (run [OpDataChannel 0 (Some 7, None) (DataChannel 2)] (fresh DirInbound))))))) = 2"
proof -
  let ?c = "run [OpDataChannel 0 (Some 7, None) (DataChannel 2)] (fresh DirInbound)"
  let ?ops' = "[OpDataChannel 0 (Some 8, None) (DataChannel 4), OpOpenStream (env_opened 5)]"
  have new: "NewWebRTCConnection DirInbound PeerConnectionStateConnected
      (the (SetupDataChannelQueue maxChanLen maxAcceptQueueLen)) = (Some (fresh DirInbound), None, [])"
    by (simp add: fresh_def NewWebRTCConnection_def)
  have reason: "closeErr (snd (do_close CallClose ?c)) = Some (ErrorsNew ''connection closed'')"
    by (simp add: fresh_eq Close_open onDataChannel_def onOpen_def)
  have queue: "length (buf (acceptQueue (run ?ops' (snd (do_close CallClose ?c))))) = 2"
    by (simp add: fresh_eq Close_open onDataChannel_def onOpen_def OpenStream_closed)
  from calls_after_close [OF new, where k = CallClose
      and ops = "[OpDataChannel 0 (Some 7, None) (DataChannel 2)]" and ops' = ?ops'
      and env = "env_opened 9" and pick = CaseQueue] reason queue
  show ?thesis
    by (simp del: run_Cons do_close.simps)
qed

section \<open>The stream ID counter\<close>

lemma sint_add2:
  fixes w :: i32
  assumes "sint w + 2 < 2 ^ 31"
  shows "sint (w + 2) = sint w + 2"
proof -
  have lo: "- (2 ^ 31) \<le> sint w"
    using sint_ge [of w] by simp
  have "sint (w + 2) = signed_take_bit 31 (sint w + sint (2 :: i32))"
    by (simp add: sint_word_ariths)
  also have "\<dots> = signed_take_bit 31 (sint w + 2)"
    by simp
  also have "\<dots> = sint w + 2"
    using assms lo by (intro signed_take_bit_int_eq_self) simp_all
  finally show ?thesis .
qed

lemma do_close_nextStreamID: "nextStreamID (snd (do_close k c)) = nextStreamID c"
  by (cases "closeOnce c") (simp_all add: do_close_open do_close_used)

lemma apply_op_nextStreamID:
  "nextStreamID (apply_op x c) = nextStreamID c \<or> nextStreamID (apply_op x c) = nextStreamID c + 2"
proof (cases x)
  case OpClose
  then show ?thesis using do_close_nextStreamID [of CallClose c] by simp
next
  case OpCloseTimedOut
  then show ?thesis using do_close_nextStreamID [of CallCloseTimedOut c] by simp
next
  case (OpStateChange st)
  then show ?thesis
    using do_close_nextStreamID [of CallCloseTimedOut c]
    by (simp add: onConnectionStateChange_def)
next
  case (OpOpenStream env)
  then show ?thesis by (simp add: OpenStream_nextStreamID)
next
  case (OpAcceptStream pick)
  then show ?thesis
    by (simp add: AcceptStream_def Let_def stream_Close_fields case_prod_beta
        split: list.splits option.splits)
next
  case (OpAddStream str)
  then show ?thesis by simp
next
  case (OpRemoveStream i)
  then show ?thesis by (simp add: removeStream_result)
next
  case (OpDataChannel waiting detached dc)
  then show ?thesis by (simp add: onDataChannel_def case_prod_beta)
qed

lemma run_nextStreamID_bounds:
  "sint (nextStreamID c) + 2 * int (length ops) < 2 ^ 31 \<Longrightarrow>
   sint (nextStreamID c) \<le> sint (nextStreamID (run ops c)) \<and>
   sint (nextStreamID (run ops c)) \<le> sint (nextStreamID c) + 2 * int (length ops)"
proof (induction ops arbitrary: c)
  case Nil
  then show ?case by simp
next
  case (Cons x ops)
  have step: "sint (nextStreamID c) \<le> sint (nextStreamID (apply_op x c)) \<and>
      sint (nextStreamID (apply_op x c)) \<le> sint (nextStreamID c) + 2"
    using apply_op_nextStreamID [of x c] Cons.prems sint_add2 [of "nextStreamID c"]
    by auto
  then have "sint (nextStreamID (apply_op x c)) + 2 * int (length ops) < 2 ^ 31"
    using Cons.prems by simp
  from Cons.IH [OF this] step show ?case
    by simp
qed

lemma OpenStream_exhausted:
  "\<not> ctx_done c \<Longrightarrow> MaxUint16 < sint (nextStreamID c) \<Longrightarrow>
   OpenStream env c =
     (Returns (None, Some (ErrorsNew ''exhausted stream ID space'')),
      c\<lparr>nextStreamID := nextStreamID c + 2\<rparr>)"
  by (simp add: OpenStream_def IsClosed_def nextStreamID_Add_def)

text \<open>
  Claim C10. Every \<^verbatim>\<open>OpenStream\<close> call that passes the is-closed check advances
  \<^verbatim>\<open>nextStreamID\<close> by 2, whatever the call then returns (channel creation error,
  detach error, caller cancellation, a close racing with the call, exhaustion, insertion
  failure, success, or no return at all). Every step of the connection leaves the counter
  as it is or adds 2 to it: nothing subtracts. So, as long as the 32-bit counter has not
  wrapped, the value allocated to a call stays strictly below the counter and is never
  handed out again, and once a call has seen a value above \<^verbatim>\<open>math.MaxUint16\<close> every
  later \<^verbatim>\<open>OpenStream\<close> returns no stream: the exhaustion error while the connection
  is open. The IDs of the streams returned can have gaps: on an outbound connection, a
  call that succeeds, one whose channel creation fails and one that succeeds leave the
  IDs 2 and 6 in the table.
\<close>

theorem counter_only_advances:
  "(\<not> IsClosed c \<longrightarrow> nextStreamID (snd (OpenStream env c)) = nextStreamID c + 2)
   \<and> (nextStreamID (apply_op x c) = nextStreamID c \<or>
       nextStreamID (apply_op x c) = nextStreamID c + 2)
   \<and> (\<not> IsClosed c \<and> sint (nextStreamID c) + 2 * (1 + int (length ops)) < 2 ^ 31 \<longrightarrow>
         sint (nextStreamID c) < sint (nextStreamID (run ops (snd (OpenStream env c)))))
   \<and> (MaxUint16 < sint (nextStreamID c) \<and>
       sint (nextStreamID c) + 2 * (1 + int (length ops)) < 2 ^ 31 \<longrightarrow>
         (\<exists>e. fst (OpenStream env' (run ops c)) = Returns (None, e)) \<and>
         (\<not> IsClosed (run ops c) \<longrightarrow>
            fst (OpenStream env' (run ops c)) =
              Returns (None, Some (ErrorsNew ''exhausted stream ID space''))))
   \<and> map_option (map fst)
        (streams (run [OpOpenStream (env_opened 5), OpOpenStream env_refused,
                       OpOpenStream (env_opened 6)] (fresh DirOutbound))) = Some [2, 6]"
proof -
  let ?n = "nextStreamID c"
  have gap: "map_option (map fst)
      (streams (run [OpOpenStream (env_opened 5), OpOpenStream env_refused,
                     OpOpenStream (env_opened 6)] (fresh DirOutbound))) = Some [2, 6]"
    by (simp add: fresh_eq OpenStream_def IsClosed_def nextStreamID_Add_def MaxUint16_def
        env_opened_def env_refused_def detachChannel_def case_ready_def newStream_def
        addStream_result Let_def)
  have skip: "sint ?n < sint (nextStreamID (run ops (snd (OpenStream env c))))"
    if "\<not> IsClosed c" and "sint ?n + 2 * (1 + int (length ops)) < 2 ^ 31"
  proof -
    let ?c1 = "snd (OpenStream env c)"
    have "nextStreamID ?c1 = ?n + 2"
      using that by (simp add: OpenStream_nextStreamID)
    moreover have "sint (?n + 2) = sint ?n + 2"
      using that by (intro sint_add2) simp
    ultimately have c1: "sint (nextStreamID ?c1) = sint ?n + 2"
      by simp
    then have "sint (nextStreamID ?c1) + 2 * int (length ops) < 2 ^ 31"
      using that by simp
    from run_nextStreamID_bounds [OF this] c1 show ?thesis
      by simp
  qed
  have stuck: "(\<exists>e. fst (OpenStream env' (run ops c)) = Returns (None, e)) \<and>
      (\<not> IsClosed (run ops c) \<longrightarrow>
         fst (OpenStream env' (run ops c)) =
           Returns (None, Some (ErrorsNew ''exhausted stream ID space'')))"
    if "MaxUint16 < sint ?n" and "sint ?n + 2 * (1 + int (length ops)) < 2 ^ 31"
  proof -
    have "sint ?n + 2 * int (length ops) < 2 ^ 31"
      using that by simp
    from run_nextStreamID_bounds [OF this] that
    have big: "MaxUint16 < sint (nextStreamID (run ops c))"
      by simp
    show ?thesis
    proof (cases "ctx_done (run ops c)")
      case True
      then show ?thesis by (simp add: OpenStream_closed IsClosed_def)
    next
      case False
      then show ?thesis using big by (simp add: OpenStream_exhausted IsClosed_def)
    qed
  qed
  show ?thesis
    using skip stuck gap apply_op_nextStreamID [of x c]
    by (simp del: run_Cons add: OpenStream_nextStreamID)
qed

theorem counter_only_advances_witness:
  "nextStreamID (snd (OpenStream env_refused (fresh DirOutbound))) = 4
   \<and> fst (OpenStream (env_opened 5) ((fresh DirInbound)\<lparr>nextStreamID := 65537\<rparr>)) =
       Returns (None, Some (ErrorsNew ''exhausted stream ID space''))
   \<and> fst (OpenStream (env_opened 5)
         (run [OpOpenStream (env_opened 6)] ((fresh DirInbound)\<lparr>nextStreamID := 65537\<rparr>))) =
       Returns (None, Some (ErrorsNew ''exhausted stream ID space''))"
proof -
  have a: "\<not> IsClosed (fresh DirOutbound)"
    and b: "\<not> IsClosed (run [OpOpenStream (env_opened 6)]
        ((fresh DirInbound)\<lparr>nextStreamID := 65537\<rparr>))"
    by (simp_all add: fresh_eq IsClosed_def OpenStream_exhausted MaxUint16_def)
  have c: "MaxUint16 < sint (nextStreamID ((fresh DirInbound)\<lparr>nextStreamID := 65537\<rparr>))"
    by (simp add: MaxUint16_def)
  from counter_only_advances [of "fresh DirOutbound" env_refused OpClose "[]" "env_opened 5"]
    counter_only_advances [of "(fresh DirInbound)\<lparr>nextStreamID := 65537\<rparr>" env_refused OpClose
      "[]" "env_opened 5"]
    counter_only_advances [of "(fresh DirInbound)\<lparr>nextStreamID := 65537\<rparr>" env_refused OpClose
      "[OpOpenStream (env_opened 6)]" "env_opened 5"]
    a b c
  show ?thesis
    by (simp add: fresh_eq IsClosed_def)
qed

section \<open>The accept queue bridge\<close>

text \<open>
  Claim C8 says that every detached channel pushed when the queue has free capacity
  remains retrievable via \<^verbatim>\<open>AcceptStream\<close> with its ID intact. The code at a concrete
  input: on an outbound connection \<^verbatim>\<open>OpenStream\<close> has returned the stream with ID 2,
  and the remote opens a channel that also has ID 2. The queue has free capacity and the
  channel is enqueued unchanged. \<^verbatim>\<open>AcceptStream\<close> then takes it from the queue,
  \<^verbatim>\<open>addStream\<close> refuses the ID, the new stream is closed and the collision error is
  returned: the queue is empty, and the next \<^verbatim>\<open>AcceptStream\<close> blocks.
\<close>

theorem queued_channel_not_retrievable:
  "length (buf (acceptQueue (run [OpOpenStream (env_opened 5)] (fresh DirOutbound))))
     < capacity (acceptQueue (run [OpOpenStream (env_opened 5)] (fresh DirOutbound)))
   \<and> map fst (the (streams (run [OpOpenStream (env_opened 5)] (fresh DirOutbound)))) = [2]
   \<and> buf (acceptQueue (run [OpOpenStream (env_opened 5),
          OpDataChannel 0 (Some 7, None) (DataChannel 2)] (fresh DirOutbound)))
       = [\<lparr>dd_stream = Some 7, dd_channel = DataChannel 2\<rparr>]
   \<and> fst (AcceptStream CaseQueue (run [OpOpenStream (env_opened 5),
          OpDataChannel 0 (Some 7, None) (DataChannel 2)] (fresh DirOutbound)))
       = Returns (None, Some (ErrorsNew ''stream ID already exists''))
   \<and> fst (AcceptStream CaseDone (run [OpOpenStream (env_opened 5),
          OpDataChannel 0 (Some 7, None) (DataChannel 2)] (fresh DirOutbound)))
       = Returns (None, Some (ErrorsNew ''stream ID already exists''))
   \<and> buf (acceptQueue (snd (AcceptStream CaseQueue (run [OpOpenStream (env_opened 5),
          OpDataChannel 0 (Some 7, None) (DataChannel 2)] (fresh DirOutbound))))) = []
   \<and> fst (AcceptStream CaseQueue (snd (AcceptStream CaseQueue
          (run [OpOpenStream (env_opened 5),
             OpDataChannel 0 (Some 7, None) (DataChannel 2)] (fresh DirOutbound)))))
       = Blocks"
  by (simp add: fresh_eq OpenStream_def IsClosed_def nextStreamID_Add_def MaxUint16_def
      env_opened_def detachChannel_def case_ready_def newStream_def addStream_result Let_def
      onDataChannel_def onOpen_def AcceptStream_def)

text \<open>
  Claim C8, as amended. When a channel opened by the remote has been detached and the
  non-blocking send fails, that is, the queue holds as many channels as its capacity and
  the receivers waiting on it allow, the callback leaves the queue as it is, writes
  exactly one message with the reset flag on the detached byte stream and closes it (a
  warning is logged, nothing is returned, so a failed write is ignored). When the send
  goes through, the channel is appended to the queue unchanged and nothing else happens.
  \<^verbatim>\<open>AcceptStream\<close>, when its select takes the queue, takes the channel at the head
  and makes a stream with that channel, that byte stream and that channel's ID. If the
  table is open and has no stream with that ID, the stream is registered under the ID and
  returned. If the table holds a stream with that ID, the new stream is closed and the
  collision error is returned; if the table is closed and the close error is set (as it
  is whenever the table is closed, by \<open>run_inv\<close>), the new stream is closed and the
  close error is returned; in both cases the channel is gone from the queue. When the
  select takes the lifecycle signal, the close error is returned and the queue is left
  as it is; when neither is ready the call blocks.
\<close>

theorem accept_queue_bridge:
  "(capacity q + waiting \<le> length (buf q) \<longrightarrow>
      onOpen waiting (rwc, None) dc (q, t) =
        (q, t @ [LogWarnf ''connection busy, rejecting stream'',
                 RwcWriteMsg rwc Message_RESET, RwcClose rwc]))
   \<and> (length (buf q) < capacity q + waiting \<longrightarrow>
      onOpen waiting (rwc, None) dc (q, t) =
        (q\<lparr>buf := buf q @ [\<lparr>dd_stream = rwc, dd_channel = dc\<rparr>]\<rparr>, t))
   \<and> (\<forall>d rest al. buf (acceptQueue c) = d # rest \<and> \<not> (ctx_done c \<and> pick = CaseDone) \<and>
         streams c = Some al \<and> ID (dd_channel d) \<notin> fst ` set al \<longrightarrow>
         (\<exists>str. AcceptStream pick c =
            (Returns (Some str, None),
             c\<lparr>acceptQueue := (acceptQueue c)\<lparr>buf := rest\<rparr>,
               streams := Some (al @ [(ID (dd_channel d), str)])\<rparr>) \<and>
            str_id str = ID (dd_channel d) \<and> str_channel str = dd_channel d \<and>
            str_rwc str = dd_stream d \<and> str_onDone str = ID (dd_channel d)))
   \<and> (\<forall>d rest al. buf (acceptQueue c) = d # rest \<and> \<not> (ctx_done c \<and> pick = CaseDone) \<and>
         streams c = Some al \<and> ID (dd_channel d) \<in> fst ` set al \<longrightarrow>
         fst (AcceptStream pick c) =
           Returns (None, Some (ErrorsNew ''stream ID already exists'')) \<and>
         buf (acceptQueue (snd (AcceptStream pick c))) = rest \<and>
         trace (snd (AcceptStream pick c)) =
           trace c @ [StreamClose (newStream (dd_channel d) (dd_stream d) (ID (dd_channel d)))])
   \<and> (\<forall>d rest e. buf (acceptQueue c) = d # rest \<and> \<not> (ctx_done c \<and> pick = CaseDone) \<and>
         streams c = None \<and> closeErr c = Some e \<longrightarrow>
         fst (AcceptStream pick c) = Returns (None, Some e) \<and>
         buf (acceptQueue (snd (AcceptStream pick c))) = rest \<and>
         trace (snd (AcceptStream pick c)) =
           trace c @ [StreamClose (newStream (dd_channel d) (dd_stream d) (ID (dd_channel d)))])
   \<and> (ctx_done c \<and> (pick = CaseDone \<or> buf (acceptQueue c) = []) \<longrightarrow>
         AcceptStream pick c = (Returns (None, closeErr c), c))
   \<and> (\<not> ctx_done c \<and> buf (acceptQueue c) = [] \<longrightarrow> AcceptStream pick c = (Blocks, c))"
proof -
  have push: "(capacity q + waiting \<le> length (buf q) \<longrightarrow>
      onOpen waiting (rwc, None) dc (q, t) =
        (q, t @ [LogWarnf ''connection busy, rejecting stream'',
                 RwcWriteMsg rwc Message_RESET, RwcClose rwc]))
    \<and> (length (buf q) < capacity q + waiting \<longrightarrow>
      onOpen waiting (rwc, None) dc (q, t) =
        (q\<lparr>buf := buf q @ [\<lparr>dd_stream = rwc, dd_channel = dc\<rparr>]\<rparr>, t))"
    by (simp add: onOpen_def)
  have taken: "\<exists>str. AcceptStream pick c =
        (Returns (Some str, None),
         c\<lparr>acceptQueue := (acceptQueue c)\<lparr>buf := rest\<rparr>,
           streams := Some (al @ [(ID (dd_channel d), str)])\<rparr>) \<and>
        str_id str = ID (dd_channel d) \<and> str_channel str = dd_channel d \<and>
        str_rwc str = dd_stream d \<and> str_onDone str = ID (dd_channel d)"
    if "buf (acceptQueue c) = d # rest" "\<not> (ctx_done c \<and> pick = CaseDone)"
      "streams c = Some al" "ID (dd_channel d) \<notin> fst ` set al" for d rest al
    using that by (auto simp: AcceptStream_def Let_def addStream_result newStream_def)
  have collide: "fst (AcceptStream pick c) =
        Returns (None, Some (ErrorsNew ''stream ID already exists'')) \<and>
      buf (acceptQueue (snd (AcceptStream pick c))) = rest \<and>
      trace (snd (AcceptStream pick c)) =
        trace c @ [StreamClose (newStream (dd_channel d) (dd_stream d) (ID (dd_channel d)))]"
    if "buf (acceptQueue c) = d # rest" "\<not> (ctx_done c \<and> pick = CaseDone)"
      "streams c = Some al" "ID (dd_channel d) \<in> fst ` set al" for d rest al
    using that by (auto simp: AcceptStream_def Let_def addStream_result newStream_def)
  have closed: "fst (AcceptStream pick c) = Returns (None, Some e) \<and>
      buf (acceptQueue (snd (AcceptStream pick c))) = rest \<and>
      trace (snd (AcceptStream pick c)) =
        trace c @ [StreamClose (newStream (dd_channel d) (dd_stream d) (ID (dd_channel d)))]"
    if "buf (acceptQueue c) = d # rest" "\<not> (ctx_done c \<and> pick = CaseDone)"
      "streams c = None" "closeErr c = Some e" for d rest e
    using that by (auto simp: AcceptStream_def Let_def addStream_result)
  have signal: "AcceptStream pick c = (Returns (None, closeErr c), c)"
    if "ctx_done c" "pick = CaseDone \<or> buf (acceptQueue c) = []"
    using that by (auto simp: AcceptStream_def split: list.splits)
  have blocks: "AcceptStream pick c = (Blocks, c)"
    if "\<not> ctx_done c" "buf (acceptQueue c) = []"
    using that by (simp add: AcceptStream_def)
  show ?thesis
    using push taken collide closed signal blocks by blast
qed

theorem accept_queue_bridge_witness:
  "onOpen 0 (Some 8, None) (DataChannel 3)
      (\<lparr>buf = [\<lparr>dd_stream = Some 7, dd_channel = DataChannel 1\<rparr>], capacity = 1\<rparr>, []) =
     (\<lparr>buf = [\<lparr>dd_stream = Some 7, dd_channel = DataChannel 1\<rparr>], capacity = 1\<rparr>,
      [LogWarnf ''connection busy, rejecting stream'',
       RwcWriteMsg (Some 8) Message_RESET, RwcClose (Some 8)])
   \<and> onOpen 1 (Some 8, None) (DataChannel 3) (\<lparr>buf = [], capacity = 0\<rparr>, []) =
     (\<lparr>buf = [\<lparr>dd_stream = Some 8, dd_channel = DataChannel 3\<rparr>], capacity = 0\<rparr>, [])
   \<and> fst (AcceptStream CaseQueue
         (run [OpDataChannel 0 (Some 7, None) (DataChannel 1)] (fresh DirOutbound))) =
     Returns (Some \<lparr>str_id = 1, str_channel = DataChannel 1, str_rwc = Some 7, str_onDone = 1\<rparr>,
              None)
   \<and> fst (AcceptStream CaseQueue
         (run [OpOpenStream (env_opened 5), OpDataChannel 0 (Some 7, None) (DataChannel 2)]
            (fresh DirOutbound))) =
     Returns (None, Some (ErrorsNew ''stream ID already exists''))
   \<and> fst (AcceptStream CaseQueue
         (run [OpDataChannel 0 (Some 7, None) (DataChannel 1), OpClose] (fresh DirOutbound))) =
     Returns (None, Some (ErrorsNew ''connection closed''))
   \<and> fst (AcceptStream CaseDone
         (run [OpDataChannel 0 (Some 7, None) (DataChannel 1), OpClose] (fresh DirOutbound))) =
     Returns (None, Some (ErrorsNew ''connection closed''))
   \<and> fst (AcceptStream CaseQueue (fresh DirOutbound)) = Blocks"
proof -
  let ?q = "\<lparr>buf = [\<lparr>dd_stream = Some 7, dd_channel = DataChannel 1\<rparr>], capacity = 1\<rparr>"
  let ?c1 = "run [OpDataChannel 0 (Some 7, None) (DataChannel 1)] (fresh DirOutbound)"
  let ?c2 = "run [OpOpenStream (env_opened 5), OpDataChannel 0 (Some 7, None) (DataChannel 2)]
      (fresh DirOutbound)"
  let ?c3 = "run [OpDataChannel 0 (Some 7, None) (DataChannel 1), OpClose] (fresh DirOutbound)"
  have c1: "?c1 = (fresh DirOutbound)\<lparr>acceptQueue :=
      \<lparr>buf = [\<lparr>dd_stream = Some 7, dd_channel = DataChannel 1\<rparr>], capacity = 256\<rparr>\<rparr>"
    by (simp add: onDataChannel_def onOpen_def fresh_eq)
  have c2: "?c2 = \<lparr>closeOnce = False, closeErr = None,
      streams = Some [(2, \<lparr>str_id = 2, str_channel = DataChannel 2, str_rwc = Some 5,
                           str_onDone = 2\<rparr>)],
      nextStreamID = 4,
      acceptQueue = \<lparr>buf = [\<lparr>dd_stream = Some 7, dd_channel = DataChannel 2\<rparr>],
                      capacity = 256\<rparr>,
      ctx_done = False, trace = [PcCreateDataChannel 2]\<rparr>"
    by (simp add: fresh_eq OpenStream_def IsClosed_def nextStreamID_Add_def MaxUint16_def
        env_opened_def detachChannel_def case_ready_def newStream_def addStream_result Let_def
        onDataChannel_def onOpen_def emit_def)
  have c3: "?c3 = \<lparr>closeOnce = True, closeErr = Some (ErrorsNew ''connection closed''),
      streams = None, nextStreamID = 2,
      acceptQueue = \<lparr>buf = [\<lparr>dd_stream = Some 7, dd_channel = DataChannel 1\<rparr>],
                      capacity = 256\<rparr>,
      ctx_done = True,
      trace = [SetCloseErr (ErrorsNew ''connection closed''), CtxCancel, PcClose, ScopeDone]\<rparr>"
    by (simp add: fresh_eq onDataChannel_def onOpen_def Close_open range_streams_def)
  note full = accept_queue_bridge [of ?q 0 "Some 8" "DataChannel 3" "[]" ?c1 CaseQueue]
  note handed = accept_queue_bridge [of "\<lparr>buf = [], capacity = 0\<rparr>" 1 "Some 8" "DataChannel 3"
      "[]" ?c2 CaseQueue]
  note closedq = accept_queue_bridge [of ?q 0 "Some 8" "DataChannel 3" "[]" ?c3 CaseQueue]
  note closedd = accept_queue_bridge [of ?q 0 "Some 8" "DataChannel 3" "[]" ?c3 CaseDone]
  note idle = accept_queue_bridge [of ?q 0 "Some 8" "DataChannel 3" "[]" "fresh DirOutbound"
      CaseQueue]
  show ?thesis
    using full handed closedq closedd idle
    unfolding c1 c2 c3
    by (auto simp: fresh_eq)
qed

section \<open>The order of the close error and the cancellation\<close>

lemma stays_stage:
  "stays c c' \<Longrightarrow> stage_open c' = stage_open c"
  "stays c c' \<Longrightarrow> stage_written c' = stage_written c"
  "stays c c' \<Longrightarrow> stage_cancelled c' = stage_cancelled c"
  by (auto simp: stays_def stage_open_def stage_written_def stage_cancelled_def
      split: option.splits)

lemma closes_stage: "closes k c c' \<Longrightarrow> stage_open c \<Longrightarrow> stage_cancelled c'"
  by (simp add: closes_def stage_open_def stage_cancelled_def)

lemma sys_inv_other: "sys_inv s \<Longrightarrow> sys_inv (sys_step body (Other x) s)"
proof (cases "body_running body s \<and> calls_Do x")
  case True
  assume "sys_inv s"
  then show ?thesis using True by simp
next
  case False
  obtain pc l c where s: "s = (pc, l, c)"
    by (cases s)
  have step: "sys_step body (Other x) s = (pc, l, apply_op x c)"
    using False s by auto
  assume inv: "sys_inv s"
  from apply_op_effect [of c x] have "sys_inv (pc, l, apply_op x c)"
  proof
    assume st: "stays c (apply_op x c)"
    then have "closeOnce (apply_op x c) = closeOnce c"
      by (simp add: stays_def)
    then show ?thesis
      using inv s stays_stage [OF st] by (simp add: sys_inv_def)
  next
    assume "\<exists>k. closes k c (apply_op x c)"
    then obtain k where cl: "closes k c (apply_op x c)" ..
    then have "\<not> closeOnce c" and "closeOnce (apply_op x c)"
      by (simp_all add: closes_def)
    then show ?thesis
      using inv s closes_stage [OF cl] by (simp add: sys_inv_def split: if_splits)
  qed
  then show ?thesis
    by (simp only: step)
qed

lemma body_nth:
  assumes "body = Close_body \<or> body = closeTimedOut_body"
  shows "length body = 6"
    and "\<exists>e. body ! 0 = set_closeErr e"
    and "body ! 1 = cancel"
    and "body ! 2 = take_streams"
    and "body ! 3 = reset_all \<or> body ! 3 = setCloseError_all"
    and "body ! 4 = pc_Close"
    and "body ! 5 = scope_Done"
  using assms by (auto simp: Close_body_def closeTimedOut_body_def)

lemma stmt_stage:
  "stage_open c \<Longrightarrow> stage_written (snd (set_closeErr e (l, c)))"
  "stage_written c \<Longrightarrow> stage_cancelled (snd (cancel (l, c)))"
  "stage_cancelled c \<Longrightarrow> stage_cancelled (snd (take_streams (l, c)))"
  "stage_cancelled c \<Longrightarrow> stage_cancelled (snd (reset_all (l, c)))"
  "stage_cancelled c \<Longrightarrow> stage_cancelled (snd (setCloseError_all (l, c)))"
  "stage_cancelled c \<Longrightarrow> stage_cancelled (snd (pc_Close (l, c)))"
  "stage_cancelled c \<Longrightarrow> stage_cancelled (snd (scope_Done (l, c)))"
  by (simp_all add: stage_open_def stage_written_def stage_cancelled_def set_closeErr_def
      cancel_def take_streams_def reset_all_def setCloseError_all_def pc_Close_def scope_Done_def
      fold_stream_Reset fold_stream_setCloseError lifecycle_def emit_def
      split: option.splits)

lemma stmt_once:
  "closeOnce (snd (set_closeErr e (l, c))) = closeOnce c"
  "closeOnce (snd (cancel (l, c))) = closeOnce c"
  "closeOnce (snd (take_streams (l, c))) = closeOnce c"
  "closeOnce (snd (reset_all (l, c))) = closeOnce c"
  "closeOnce (snd (setCloseError_all (l, c))) = closeOnce c"
  "closeOnce (snd (pc_Close (l, c))) = closeOnce c"
  "closeOnce (snd (scope_Done (l, c))) = closeOnce c"
  by (simp_all add: set_closeErr_def
      cancel_def take_streams_def reset_all_def setCloseError_all_def pc_Close_def scope_Done_def
      fold_stream_Reset fold_stream_setCloseError emit_def)

lemma sys_inv_closer:
  assumes "body = Close_body \<or> body = closeTimedOut_body" and "sys_inv s"
  shows "sys_inv (sys_step body Closer s)"
proof -
  obtain pc l c where s: "s = (pc, l, c)"
    by (cases s)
  note b = body_nth [OF assms(1)]
  consider "pc = 0" | "pc = 1" | "pc = 2" | "pc = 3" | "pc = 4" | "pc = 5" | "pc = 6" | "6 < pc"
    by linarith
  then show ?thesis
  proof cases
    case 1
    then show ?thesis
      using assms(2) s b(1)
      by (auto simp: sys_inv_def closer_step_def stage_open_def split: if_splits)
  next
    case 2
    obtain e where "body ! 0 = set_closeErr e"
      using b(2) ..
    then show ?thesis
      using assms(2) s b(1) 2 stmt_stage(1) [of c e l] stmt_once(1) [of e l c]
      by (simp add: sys_inv_def closer_step_def case_prod_beta)
  next
    case 3
    then show ?thesis
      using assms(2) s b(1,3) stmt_stage(2) [of c l] stmt_once(2) [of l c]
      by (simp add: sys_inv_def closer_step_def case_prod_beta)
  next
    case 4
    then show ?thesis
      using assms(2) s b(1,4) stmt_stage(3) [of c l] stmt_once(3) [of l c]
      by (simp add: sys_inv_def closer_step_def case_prod_beta)
  next
    case 5
    then show ?thesis
      using assms(2) s b(1,5) stmt_stage(4,5) [of c l] stmt_once(4,5) [of l c]
      by (auto simp: sys_inv_def closer_step_def case_prod_beta)
  next
    case 6
    then show ?thesis
      using assms(2) s b(1,6) stmt_stage(6) [of c l] stmt_once(6) [of l c]
      by (simp add: sys_inv_def closer_step_def case_prod_beta)
  next
    case 7
    then show ?thesis
      using assms(2) s b(1,7) stmt_stage(7) [of c l] stmt_once(7) [of l c]
      by (simp add: sys_inv_def closer_step_def case_prod_beta)
  next
    case 8
    then show ?thesis
      using assms(2) s b(1)
      by (simp add: sys_inv_def closer_step_def)
  qed
qed

lemma sys_inv_run:
  assumes "body = Close_body \<or> body = closeTimedOut_body"
  shows "sys_inv s \<Longrightarrow> sys_inv (sys_run body sch s)"
proof (induction sch arbitrary: s)
  case Nil
  then show ?case by (simp add: sys_run_def)
next
  case (Cons a sch)
  have "sys_inv (sys_step body a s)"
    using Cons.prems assms by (cases a) (simp_all only: sys_inv_closer sys_inv_other)
  from Cons.IH [OF this] show ?case
    by (simp add: sys_run_def)
qed

lemma conn_inv_sys_inv: "conn_inv c \<Longrightarrow> sys_inv (0, l, c)"
  by (auto simp: conn_inv_def sys_inv_def stage_open_def stage_cancelled_def
      split: option.splits if_splits)

lemma closer_alone:
  assumes "body = Close_body \<or> body = closeTimedOut_body"
  shows "snd (snd (sys_run body (replicate 7 Closer) (0, None, c))) = closeOnce_Do body c"
  using assms
  by (auto simp: sys_run_def closer_step_def closeOnce_Do_def run_body_def numeral_eq_Suc
      Close_body_def closeTimedOut_body_def)

text \<open>
  Claim C6. Take a connection made by \<^verbatim>\<open>NewWebRTCConnection\<close>, after any list of
  steps, and a goroutine running \<^verbatim>\<open>Close\<close> or \<^verbatim>\<open>closeTimedOut\<close> statement by
  statement, interleaved in any way with any other calls on the connection (other calls of
  \<^verbatim>\<open>Close\<close> and \<^verbatim>\<open>closeTimedOut\<close> among them). At every point of every such
  schedule the lifecycle part of the trace is empty, or one write of the close error, or
  one write of the close error followed by one cancel; the field \<^verbatim>\<open>closeErr\<close> holds
  the written error, and the signal has fired exactly when the cancel is in the trace. So
  \<^verbatim>\<open>closeErr\<close> is written at most once, the write comes before the cancel, and
  whoever sees \<^verbatim>\<open>IsClosed\<close> true reads a close error that is set. (By
  \<open>closer_alone\<close>, the goroutine run on its own does what \<^verbatim>\<open>closeOnce.Do\<close> does.)
\<close>

theorem closeErr_before_cancel:
  assumes "NewWebRTCConnection d st q = (Some c0, e0, t0)"
    and "body = Close_body \<or> body = closeTimedOut_body"
    and "sys_run body sch (0, None, run ops c0) = (pc, l, c)"
  shows "((closeErr c = None \<and> \<not> ctx_done c \<and> lifecycle (trace c) = [])
      \<or> (\<exists>e. closeErr c = Some e \<and> \<not> ctx_done c \<and> lifecycle (trace c) = [SetCloseErr e])
      \<or> (\<exists>e. closeErr c = Some e \<and> ctx_done c \<and>
              lifecycle (trace c) = [SetCloseErr e, CtxCancel]))
    \<and> (IsClosed c \<longrightarrow> closeErr c \<noteq> None)"
proof -
  have "conn_inv (run ops c0)"
    using assms(1) by (simp add: run_inv NewWebRTCConnection_inv)
  then have "sys_inv (0, None, run ops c0)"
    by (rule conn_inv_sys_inv)
  then have "sys_inv (sys_run body sch (0, None, run ops c0))"
    by (rule sys_inv_run [OF assms(2)])
  then have "sys_inv (pc, l, c)"
    using assms(3) by simp
  then have "stage_open c \<or> stage_written c \<or> stage_cancelled c"
    by (auto simp: sys_inv_def split: if_splits)
  then show ?thesis
    by (auto simp: stage_open_def stage_written_def stage_cancelled_def IsClosed_def
        split: option.splits)
qed

theorem closeErr_before_cancel_witness:
  "closeErr (snd (snd (sys_run Close_body [Closer, Closer]
      (0, None, run [OpAddStream (stream_of 2)] (fresh DirOutbound)))))
     = Some (ErrorsNew ''connection closed'')
   \<and> \<not> ctx_done (snd (snd (sys_run Close_body [Closer, Closer]
      (0, None, run [OpAddStream (stream_of 2)] (fresh DirOutbound)))))
   \<and> lifecycle (trace (snd (snd (sys_run Close_body
        [Closer, Closer, Other (OpAcceptStream CaseQueue), Closer, Other OpCloseTimedOut]
        (0, None, run [OpAddStream (stream_of 2)] (fresh DirOutbound))))))
     = [SetCloseErr (ErrorsNew ''connection closed''), CtxCancel]
   \<and> ctx_done (snd (snd (sys_run Close_body
        [Closer, Closer, Other (OpAcceptStream CaseQueue), Closer, Other OpCloseTimedOut]
        (0, None, run [OpAddStream (stream_of 2)] (fresh DirOutbound)))))"
proof -
  let ?s0 = "(0 :: nat, None :: (u16 \<times> stream) list option,
      run [OpAddStream (stream_of 2)] (fresh DirOutbound))"
  let ?s1 = "sys_run Close_body [Closer, Closer] ?s0"
  let ?s2 = "sys_run Close_body
      [Closer, Closer, Other (OpAcceptStream CaseQueue), Closer, Other OpCloseTimedOut] ?s0"
  have new: "NewWebRTCConnection DirOutbound PeerConnectionStateConnected
      (the (SetupDataChannelQueue maxChanLen maxAcceptQueueLen)) = (Some (fresh DirOutbound), None, [])"
    by (simp add: fresh_def NewWebRTCConnection_def)
  have body: "Close_body = Close_body \<or> Close_body = closeTimedOut_body"
    by simp
  have s1: "?s1 = (fst ?s1, fst (snd ?s1), snd (snd ?s1))"
    and s2: "?s2 = (fst ?s2, fst (snd ?s2), snd (snd ?s2))"
    by simp_all
  have e1: "\<not> ctx_done (snd (snd ?s1))"
    "closeErr (snd (snd ?s1)) = Some (ErrorsNew ''connection closed'')"
    by (simp_all add: sys_run_def closer_step_def Close_body_def fresh_eq addStream_result
        set_closeErr_def)
  have e2: "ctx_done (snd (snd ?s2))"
    "closeErr (snd (snd ?s2)) = Some (ErrorsNew ''connection closed'')"
    by (simp_all add: sys_run_def closer_step_def Close_body_def fresh_eq addStream_result
        set_closeErr_def cancel_def AcceptStream_def closeTimedOut_def closeOnce_Do_def)
  from closeErr_before_cancel [OF new body s1] closeErr_before_cancel [OF new body s2] e1 e2
  show ?thesis
    by simp
qed

section \<open>The counter past its 32-bit range\<close>

lemma OpenStream_refused_fields:
  "closeOnce (snd (OpenStream env_refused c)) = closeOnce c"
  "closeErr (snd (OpenStream env_refused c)) = closeErr c"
  "ctx_done (snd (OpenStream env_refused c)) = ctx_done c"
  "streams (snd (OpenStream env_refused c)) = streams c"
  "acceptQueue (snd (OpenStream env_refused c)) = acceptQueue c"
  by (simp_all add: OpenStream_def env_refused_def nextStreamID_Add_def Let_def)

lemma refused_run_fields:
  "closeOnce (run (replicate n (OpOpenStream env_refused)) c) = closeOnce c"
  "closeErr (run (replicate n (OpOpenStream env_refused)) c) = closeErr c"
  "ctx_done (run (replicate n (OpOpenStream env_refused)) c) = ctx_done c"
  "streams (run (replicate n (OpOpenStream env_refused)) c) = streams c"
  "acceptQueue (run (replicate n (OpOpenStream env_refused)) c) = acceptQueue c"
  by (induction n arbitrary: c) (simp_all add: OpenStream_refused_fields)

lemma refused_run_nextStreamID:
  "\<not> ctx_done c \<Longrightarrow>
   nextStreamID (run (replicate n (OpOpenStream env_refused)) c) = nextStreamID c + 2 * of_nat n"
proof (induction n arbitrary: c)
  case 0
  then show ?case by simp
next
  case (Suc n)
  have "\<not> ctx_done (snd (OpenStream env_refused c))"
    using Suc.prems by (simp add: OpenStream_refused_fields)
  from Suc.IH [OF this] Suc.prems show ?case
    by (simp add: OpenStream_nextStreamID IsClosed_def algebra_simps)
qed

lemma OpenStream_opened:
  assumes "\<not> ctx_done c" and "\<not> MaxUint16 < sint (nextStreamID c)"
    and "streams c = Some al" and "ucast (nextStreamID c) \<notin> fst ` set al"
  shows "fst (OpenStream (env_opened h) c) =
     Returns (Some (newStream (DataChannel (ucast (nextStreamID c))) (Some h)
                      (ucast (nextStreamID c))), None)"
  using assms
  by (simp add: OpenStream_def IsClosed_def nextStreamID_Add_def Let_def env_opened_def
      detachChannel_def case_ready_def addStream_result newStream_def)

text \<open>
  Claim C3 says that the IDs \<^verbatim>\<open>OpenStream\<close> allocates strictly increase by 2 and
  that ID 0 is never allocated. The code at the failing input: on an outbound connection
  \<^verbatim>\<open>OpenStream\<close> has been called 1073741823 times (here every channel creation is
  refused). The last of these calls saw the counter 2147483646 and returned the
  exhaustion error. The counter now holds -2147483648, which is not above
  \<^verbatim>\<open>math.MaxUint16\<close>, so the next call asks the peer connection for a channel with
  ID \<^verbatim>\<open>uint16(-2147483648) = 0\<close> and returns a stream with ID 0.
\<close>

theorem outbound_allocates_zero_after_wrap:
  "fst (OpenStream (env_opened 7)
      (run (replicate 1073741822 (OpOpenStream env_refused)) (fresh DirOutbound))) =
     Returns (None, Some (ErrorsNew ''exhausted stream ID space''))
   \<and> nextStreamID (run (replicate 1073741823 (OpOpenStream env_refused)) (fresh DirOutbound))
      = - 2147483648
   \<and> fst (OpenStream (env_opened 7)
      (run (replicate 1073741823 (OpOpenStream env_refused)) (fresh DirOutbound))) =
     Returns (Some \<lparr>str_id = 0, str_channel = DataChannel 0, str_rwc = Some 7, str_onDone = 0\<rparr>,
              None)
   \<and> last (trace (snd (OpenStream env_refused
      (run (replicate 1073741823 (OpOpenStream env_refused)) (fresh DirOutbound))))) =
     PcCreateDataChannel 0"
proof -
  let ?c = "\<lambda>n. run (replicate n (OpOpenStream env_refused)) (fresh DirOutbound)"
  have open0: "\<not> ctx_done (fresh DirOutbound)"
    by (simp add: fresh_eq)
  have flds: "\<not> ctx_done (?c n)" "streams (?c n) = Some []" for n
    by (simp_all add: refused_run_fields fresh_eq)
  have n1: "nextStreamID (?c 1073741822) = 2147483646"
    using refused_run_nextStreamID [OF open0, of 1073741822] by (simp add: fresh_eq)
  have n2: "nextStreamID (?c 1073741823) = - 2147483648"
    using refused_run_nextStreamID [OF open0, of 1073741823] by (simp add: fresh_eq)
  have "fst (OpenStream (env_opened 7) (?c 1073741822)) =
      Returns (None, Some (ErrorsNew ''exhausted stream ID space''))"
    using flds(1) [of 1073741822] n1 by (simp add: OpenStream_exhausted MaxUint16_def)
  moreover have "fst (OpenStream (env_opened 7) (?c 1073741823)) =
      Returns (Some (newStream (DataChannel (ucast (nextStreamID (?c 1073741823)))) (Some 7)
                      (ucast (nextStreamID (?c 1073741823)))), None)"
    by (rule OpenStream_opened [OF flds(1) _ flds(2)]) (simp_all add: n2 MaxUint16_def)
  moreover have "last (trace (snd (OpenStream env_refused (?c 1073741823)))) =
      PcCreateDataChannel 0"
    using flds(1) [of 1073741823] n2
    by (simp add: OpenStream_def IsClosed_def nextStreamID_Add_def Let_def env_refused_def
        MaxUint16_def)
  ultimately show ?thesis
    using n2 by (simp add: newStream_def)
qed

text \<open>
  The same wrap-around on an inbound connection: the call after 32768 earlier calls
  sees the counter 65537 and returns the exhaustion error; the call after 1073741824
  earlier calls sees the counter -2147483647, which is not above
  \<^verbatim>\<open>math.MaxUint16\<close>, asks the peer connection for a channel with ID 1 and returns
  a stream with ID 1, the ID the first call on this connection had allocated.
\<close>

theorem exhaustion_forgotten_after_wrap:
  "fst (OpenStream (env_opened 7)
      (run (replicate 32768 (OpOpenStream env_refused)) (fresh DirInbound))) =
     Returns (None, Some (ErrorsNew ''exhausted stream ID space''))
   \<and> nextStreamID (run (replicate 1073741824 (OpOpenStream env_refused)) (fresh DirInbound))
      = - 2147483647
   \<and> fst (OpenStream (env_opened 7)
      (run (replicate 1073741824 (OpOpenStream env_refused)) (fresh DirInbound))) =
     Returns (Some \<lparr>str_id = 1, str_channel = DataChannel 1, str_rwc = Some 7, str_onDone = 1\<rparr>,
              None)
   \<and> last (trace (snd (OpenStream env_refused
      (run (replicate 1073741824 (OpOpenStream env_refused)) (fresh DirInbound))))) =
     PcCreateDataChannel 1"
proof -
  let ?c = "\<lambda>n. run (replicate n (OpOpenStream env_refused)) (fresh DirInbound)"
  have open0: "\<not> ctx_done (fresh DirInbound)"
    by (simp add: fresh_eq)
  have flds: "\<not> ctx_done (?c n)" "streams (?c n) = Some []" for n
    by (simp_all add: refused_run_fields fresh_eq)
  have n1: "nextStreamID (?c 32768) = 65537"
    using refused_run_nextStreamID [OF open0, of 32768] by (simp add: fresh_eq)
  have n2: "nextStreamID (?c 1073741824) = - 2147483647"
    using refused_run_nextStreamID [OF open0, of 1073741824] by (simp add: fresh_eq)
  have "fst (OpenStream (env_opened 7) (?c 32768)) =
      Returns (None, Some (ErrorsNew ''exhausted stream ID space''))"
    using flds(1) [of 32768] n1 by (simp add: OpenStream_exhausted MaxUint16_def)
  moreover have "fst (OpenStream (env_opened 7) (?c 1073741824)) =
      Returns (Some (newStream (DataChannel (ucast (nextStreamID (?c 1073741824)))) (Some 7)
                      (ucast (nextStreamID (?c 1073741824)))), None)"
    by (rule OpenStream_opened [OF flds(1) _ flds(2)]) (simp_all add: n2 MaxUint16_def)
  moreover have "last (trace (snd (OpenStream env_refused (?c 1073741824)))) =
      PcCreateDataChannel 1"
    using flds(1) [of 1073741824] n2
    by (simp add: OpenStream_def IsClosed_def nextStreamID_Add_def Let_def env_refused_def
        MaxUint16_def)
  ultimately show ?thesis
    using n2 by (simp add: newStream_def)
qed

text \<open>
  Claim C4. Take any state of the connection in which \<^verbatim>\<open>IsClosed\<close> is false, also
  one reached after any number of calls and any wrap-around of the 32-bit counter. If the
  value \<^verbatim>\<open>id := c.nextStreamID.Add(2) - 2\<close> that \<^verbatim>\<open>OpenStream\<close> allocates is
  greater than 65535, the call returns no stream and the error
  \<^verbatim>\<open>exhausted stream ID space\<close>; it makes no call on the peer connection (so no
  channel is created), leaves the stream table as it is, and changes nothing but the
  counter, which it has advanced by 2.
\<close>

theorem exhaustion_rejected:
  assumes "\<not> IsClosed c" and "MaxUint16 < sint (fst (nextStreamID_Add 2 c) - 2)"
  shows "OpenStream env c =
       (Returns (None, Some (ErrorsNew ''exhausted stream ID space'')),
        c\<lparr>nextStreamID := nextStreamID c + 2\<rparr>)
    \<and> trace (snd (OpenStream env c)) = trace c
    \<and> streams (snd (OpenStream env c)) = streams c
    \<and> acceptQueue (snd (OpenStream env c)) = acceptQueue c
    \<and> \<not> IsClosed (snd (OpenStream env c))"
proof -
  have live: "\<not> ctx_done c"
    using assms(1) by (simp add: IsClosed_def split: if_splits)
  have above: "MaxUint16 < sint (nextStreamID c)"
    using assms(2) by (simp add: nextStreamID_Add_def)
  have "OpenStream env c =
       (Returns (None, Some (ErrorsNew ''exhausted stream ID space'')),
        c\<lparr>nextStreamID := nextStreamID c + 2\<rparr>)"
    using live above by (rule OpenStream_exhausted)
  then show ?thesis
    using live by (simp add: IsClosed_def)
qed

theorem exhaustion_rejected_witness:
  "nextStreamID (run (replicate 2147516416 (OpOpenStream env_refused)) (fresh DirInbound))
     = 65537
   \<and> \<not> IsClosed (run (replicate 2147516416 (OpOpenStream env_refused)) (fresh DirInbound))
   \<and> fst (OpenStream (env_opened 7)
        (run (replicate 2147516416 (OpOpenStream env_refused)) (fresh DirInbound))) =
     Returns (None, Some (ErrorsNew ''exhausted stream ID space''))
   \<and> trace (snd (OpenStream (env_opened 7)
        (run (replicate 2147516416 (OpOpenStream env_refused)) (fresh DirInbound)))) =
     trace (run (replicate 2147516416 (OpOpenStream env_refused)) (fresh DirInbound))
   \<and> streams (snd (OpenStream (env_opened 7)
        (run (replicate 2147516416 (OpOpenStream env_refused)) (fresh DirInbound)))) = Some []
   \<and> nextStreamID (snd (OpenStream (env_opened 7)
        (run (replicate 2147516416 (OpOpenStream env_refused)) (fresh DirInbound)))) = 65539"
proof -
  let ?c = "run (replicate 2147516416 (OpOpenStream env_refused)) (fresh DirInbound)"
  have open0: "\<not> ctx_done (fresh DirInbound)"
    by (simp add: fresh_eq)
  have n: "nextStreamID ?c = 65537"
    using refused_run_nextStreamID [OF open0, of 2147516416] by (simp add: fresh_eq)
  have live: "\<not> IsClosed ?c"
    by (simp add: IsClosed_def refused_run_fields fresh_eq)
  have above: "MaxUint16 < sint (fst (nextStreamID_Add 2 ?c) - 2)"
    by (simp add: nextStreamID_Add_def n MaxUint16_def)
  have tbl: "streams ?c = Some []"
    by (simp add: refused_run_fields fresh_eq)
  note r = exhaustion_rejected [OF live above, of "env_opened 7"]
  have "OpenStream (env_opened 7) ?c =
       (Returns (None, Some (ErrorsNew ''exhausted stream ID space'')),
        ?c\<lparr>nextStreamID := nextStreamID ?c + 2\<rparr>)"
    using r by blast
  moreover have "trace (snd (OpenStream (env_opened 7) ?c)) = trace ?c"
    using r by blast
  moreover have "streams (snd (OpenStream (env_opened 7) ?c)) = streams ?c"
    using r by blast
  ultimately show ?thesis
    using n live tbl by simp
qed

section \<open>The allocation sequence before the wrap-around\<close>

lemma NewWebRTCConnection_first_id:
  "NewWebRTCConnection d st q = (Some c0, e0, t0) \<Longrightarrow> sint (nextStreamID c0) = first_id d"
  by (cases d) (auto simp: NewWebRTCConnection_def Let_def split: if_splits)

lemma apply_op_counter:
  "\<not> ctx_done c \<Longrightarrow>
   nextStreamID (apply_op x c) = (if is_open_call x then nextStreamID c + 2 else nextStreamID c)"
proof (cases x)
  case OpClose
  then show ?thesis using do_close_nextStreamID [of CallClose c] by simp
next
  case OpCloseTimedOut
  then show ?thesis using do_close_nextStreamID [of CallCloseTimedOut c] by simp
next
  case (OpStateChange st)
  then show ?thesis
    using do_close_nextStreamID [of CallCloseTimedOut c]
    by (simp add: onConnectionStateChange_def)
next
  case (OpOpenStream env)
  assume "\<not> ctx_done c"
  then show ?thesis using OpOpenStream by (simp add: OpenStream_nextStreamID IsClosed_def)
next
  case (OpAcceptStream pick)
  then show ?thesis
    by (simp add: AcceptStream_def Let_def stream_Close_fields case_prod_beta
        split: list.splits option.splits)
next
  case (OpAddStream str)
  then show ?thesis by simp
next
  case (OpRemoveStream i)
  then show ?thesis by (simp add: removeStream_result)
next
  case (OpDataChannel waiting detached dc)
  then show ?thesis by (simp add: onDataChannel_def case_prod_beta)
qed

lemma opens_Cons [simp]: "opens (x # ops) = (if is_open_call x then Suc (opens ops) else opens ops)"
  by (simp add: opens_def)

lemma opens_Nil [simp]: "opens [] = 0"
  by (simp add: opens_def)

lemma conn_inv_open: "conn_inv c \<Longrightarrow> \<not> closeOnce c \<Longrightarrow> \<not> ctx_done c \<and> streams c \<noteq> None"
  by (simp add: conn_inv_def)

lemma run_open_sint:
  "conn_inv c \<Longrightarrow> \<not> closeOnce (run ops c) \<Longrightarrow>
   sint (nextStreamID c) + 2 * int (opens ops) < 2 ^ 31 \<Longrightarrow>
   sint (nextStreamID (run ops c)) = sint (nextStreamID c) + 2 * int (opens ops)"
proof (induction ops arbitrary: c)
  case Nil
  then show ?case by simp
next
  case (Cons x ops)
  have "\<not> closeOnce c"
    using Cons.prems(2) run_once [of c "x # ops"] by blast
  then have live: "\<not> ctx_done c"
    using Cons.prems(1) by (simp add: conn_inv_open)
  have inv: "conn_inv (apply_op x c)"
    using Cons.prems(1) by (rule conn_inv_step [OF _ apply_op_effect])
  have still: "\<not> closeOnce (run ops (apply_op x c))"
    using Cons.prems(2) by simp
  have counter: "sint (nextStreamID (apply_op x c)) =
      sint (nextStreamID c) + (if is_open_call x then 2 else 0)"
    using Cons.prems(3) sint_add2 [of "nextStreamID c"]
    by (auto simp: apply_op_counter [OF live])
  then have "sint (nextStreamID (apply_op x c)) + 2 * int (opens ops) < 2 ^ 31"
    using Cons.prems(3) by (simp split: if_splits)
  from Cons.IH [OF inv still this] counter show ?case
    by simp
qed

lemma ucast_small:
  fixes w :: i32
  assumes "0 \<le> sint w" and "sint w \<le> 65535"
  shows "uint (ucast w :: u16) = sint w"
proof -
  have "uint w = take_bit 32 (sint w)"
    using uint_sint [of w] by simp
  also have "\<dots> = sint w"
    using assms by (intro take_bit_int_eq_self) simp_all
  finally have u: "uint w = sint w" .
  have "uint (ucast w :: u16) = take_bit 16 (uint w)"
    by (simp add: unsigned_ucast_eq)
  also have "\<dots> = sint w"
    unfolding u using assms by (intro take_bit_int_eq_self) simp_all
  finally show ?thesis .
qed

lemma OpenStream_asks:
  assumes "\<not> closeOnce c" and "\<not> ctx_done c" and "\<not> MaxUint16 < sint (nextStreamID c)"
  shows "\<exists>rest. trace (snd (OpenStream env c)) =
     trace c @ PcCreateDataChannel (ucast (nextStreamID c)) # rest"
  using assms
  apply (cases "race_in_select env"; cases "race_before_add env")
     apply (simp_all add: OpenStream_def IsClosed_def nextStreamID_Add_def Let_def stream_Close_fields
      do_close_used do_close_open case_prod_beta addStream_closed
      split: option.splits outcome.splits)
  done

lemma OpenStream_stream_id:
  assumes "\<not> ctx_done c" and "fst (OpenStream env c) = Returns (Some str, e)"
  shows "str_id str = ucast (nextStreamID c) \<and> e = None"
  using assms
  by (auto simp: OpenStream_def IsClosed_def nextStreamID_Add_def Let_def
      case_prod_beta newStream_def split: option.splits outcome.splits if_splits)

text \<open>
  What does hold of the allocation. Take a connection made by
  \<^verbatim>\<open>NewWebRTCConnection\<close> for the direction \<open>d\<close>, and any list of steps after which it
  is still open, \<open>k\<close> of them calls of \<^verbatim>\<open>OpenStream\<close>. The counter then holds the
  first ID of the direction plus \<open>2 * k\<close>. If that value is at most 65535, the next
  \<^verbatim>\<open>OpenStream\<close> asks the peer connection for a channel with exactly that ID, a
  stream it returns has that ID, and the counter advances by 2.
\<close>

theorem allocation_in_range:
  assumes "NewWebRTCConnection d st q = (Some c0, e0, t0)"
    and "\<not> closeOnce (run ops c0)"
    and "first_id d + 2 * int (opens ops) \<le> 65535"
  shows "\<exists>i rest. uint i = first_id d + 2 * int (opens ops)
      \<and> trace (snd (OpenStream env (run ops c0))) =
          trace (run ops c0) @ PcCreateDataChannel i # rest
      \<and> (\<forall>str e. fst (OpenStream env (run ops c0)) = Returns (Some str, e) \<longrightarrow> str_id str = i)
      \<and> nextStreamID (snd (OpenStream env (run ops c0))) = nextStreamID (run ops c0) + 2
      \<and> sint (nextStreamID (run ops c0)) = first_id d + 2 * int (opens ops)"
proof -
  let ?c = "run ops c0"
  have inv0: "conn_inv c0"
    using assms(1) by (rule NewWebRTCConnection_inv)
  have start: "sint (nextStreamID c0) = first_id d"
    using assms(1) by (rule NewWebRTCConnection_first_id)
  have "sint (nextStreamID c0) + 2 * int (opens ops) < 2 ^ 31"
    using assms(3) start by simp
  from run_open_sint [OF inv0 assms(2) this] start
  have counter: "sint (nextStreamID ?c) = first_id d + 2 * int (opens ops)"
    by simp
  have "0 \<le> first_id d"
    by (cases d) simp_all
  then have "uint (ucast (nextStreamID ?c) :: u16) = first_id d + 2 * int (opens ops)"
    using counter assms(3) ucast_small [of "nextStreamID ?c"] by simp
  moreover have live: "\<not> ctx_done ?c"
    using run_inv [OF inv0, of ops] assms(2) by (simp add: conn_inv_open)
  have "\<not> MaxUint16 < sint (nextStreamID ?c)"
    using counter assms(3) by (simp add: MaxUint16_def)
  from OpenStream_asks [OF assms(2) live this, of env]
  obtain rest where "trace (snd (OpenStream env ?c)) =
      trace ?c @ PcCreateDataChannel (ucast (nextStreamID ?c)) # rest" ..
  moreover have "\<forall>str e. fst (OpenStream env ?c) = Returns (Some str, e) \<longrightarrow>
      str_id str = ucast (nextStreamID ?c)"
    using OpenStream_stream_id [OF live] by blast
  moreover have "nextStreamID (snd (OpenStream env ?c)) = nextStreamID ?c + 2"
    using live by (simp add: OpenStream_nextStreamID IsClosed_def)
  ultimately show ?thesis
    using counter by blast
qed

theorem allocation_in_range_witness:
  "fst (OpenStream (env_opened 9)
      (run [OpOpenStream (env_opened 5), OpOpenStream env_refused] (fresh DirOutbound))) =
     Returns (Some \<lparr>str_id = 6, str_channel = DataChannel 6, str_rwc = Some 9, str_onDone = 6\<rparr>,
              None)
   \<and> sint (nextStreamID
        (run [OpOpenStream (env_opened 5), OpOpenStream env_refused] (fresh DirOutbound))) = 6"
proof -
  let ?c = "run [OpOpenStream (env_opened 5), OpOpenStream env_refused] (fresh DirOutbound)"
  have new: "NewWebRTCConnection DirOutbound PeerConnectionStateConnected
      (the (SetupDataChannelQueue maxChanLen maxAcceptQueueLen)) = (Some (fresh DirOutbound), None, [])"
    by (simp add: fresh_def NewWebRTCConnection_def)
  have c: "?c = \<lparr>closeOnce = False, closeErr = None,
      streams = Some [(2, \<lparr>str_id = 2, str_channel = DataChannel 2, str_rwc = Some 5,
                           str_onDone = 2\<rparr>)],
      nextStreamID = 6, acceptQueue = \<lparr>buf = [], capacity = 256\<rparr>, ctx_done = False,
      trace = [PcCreateDataChannel 2, PcCreateDataChannel 4]\<rparr>"
    by (simp add: fresh_eq OpenStream_def IsClosed_def nextStreamID_Add_def MaxUint16_def
        env_opened_def env_refused_def detachChannel_def case_ready_def newStream_def
        addStream_result Let_def emit_def)
  have still: "\<not> closeOnce ?c"
    unfolding c by simp
  have few: "first_id DirOutbound +
      2 * int (opens [OpOpenStream (env_opened 5), OpOpenStream env_refused]) \<le> 65535"
    by simp
  have res: "fst (OpenStream (env_opened 9) ?c) =
      Returns (Some \<lparr>str_id = 6, str_channel = DataChannel 6, str_rwc = Some 9,
                     str_onDone = 6\<rparr>, None)"
    unfolding c
    by (simp add: OpenStream_def IsClosed_def nextStreamID_Add_def MaxUint16_def
        env_opened_def detachChannel_def case_ready_def newStream_def
        addStream_result Let_def emit_def)
  from allocation_in_range [OF new still few, of "env_opened 9"] res
  show ?thesis
    by auto
qed

text \<open>
  If that value is above 65535 and below \<open>2 ^ 31\<close>, the next \<^verbatim>\<open>OpenStream\<close>
  returns the exhaustion error, makes no call on the peer connection, and only advances
  the counter.
\<close>

theorem exhaustion_before_wrap:
  assumes "NewWebRTCConnection d st q = (Some c0, e0, t0)"
    and "\<not> closeOnce (run ops c0)"
    and "65535 < first_id d + 2 * int (opens ops)"
    and "first_id d + 2 * int (opens ops) < 2 ^ 31"
  shows "OpenStream env (run ops c0) =
     (Returns (None, Some (ErrorsNew ''exhausted stream ID space'')),
      (run ops c0)\<lparr>nextStreamID := nextStreamID (run ops c0) + 2\<rparr>)"
proof -
  let ?c = "run ops c0"
  have inv0: "conn_inv c0"
    using assms(1) by (rule NewWebRTCConnection_inv)
  have start: "sint (nextStreamID c0) = first_id d"
    using assms(1) by (rule NewWebRTCConnection_first_id)
  have "sint (nextStreamID c0) + 2 * int (opens ops) < 2 ^ 31"
    using assms(4) start by simp
  from run_open_sint [OF inv0 assms(2) this] start
  have counter: "sint (nextStreamID ?c) = first_id d + 2 * int (opens ops)"
    by simp
  have live: "\<not> ctx_done ?c"
    using run_inv [OF inv0, of ops] assms(2) by (simp add: conn_inv_open)
  have "MaxUint16 < sint (nextStreamID ?c)"
    using counter assms(3) by (simp add: MaxUint16_def)
  with live show ?thesis
    by (rule OpenStream_exhausted)
qed

lemma opens_replicate [simp]: "opens (replicate n (OpOpenStream env)) = n"
  by (induction n) simp_all

theorem exhaustion_before_wrap_witness:
  "fst (OpenStream (env_opened 9)
      (run (replicate 32767 (OpOpenStream env_refused)) (fresh DirOutbound))) =
     Returns (None, Some (ErrorsNew ''exhausted stream ID space''))"
proof -
  have new: "NewWebRTCConnection DirOutbound PeerConnectionStateConnected
      (the (SetupDataChannelQueue maxChanLen maxAcceptQueueLen)) = (Some (fresh DirOutbound), None, [])"
    by (simp add: fresh_def NewWebRTCConnection_def)
  have still: "\<not> closeOnce (run (replicate 32767 (OpOpenStream env_refused)) (fresh DirOutbound))"
    by (simp add: refused_run_fields fresh_eq)
  from exhaustion_before_wrap [OF new still, of "env_opened 9"]
  show ?thesis
    by simp
qed

section \<open>One teardown, under every interleaving\<close>

lemma count_Reset [simp]:
  "count_list (map StreamReset xs) ScopeDone = 0"
  "count_list (map StreamReset xs) PcClose = 0"
  "count_list (map (\<lambda>s. StreamSetCloseError s e) xs) ScopeDone = 0"
  "count_list (map (\<lambda>s. StreamSetCloseError s e) xs) PcClose = 0"
  by (induction xs) simp_all

lemma stmt_counts:
  "trace (snd (set_closeErr e (l, c))) = trace c @ [SetCloseErr e]"
  "trace (snd (cancel (l, c))) = trace c @ [CtxCancel]"
  "trace (snd (take_streams (l, c))) = trace c"
  "trace (snd (reset_all (l, c))) = trace c @ map StreamReset (range_streams l)"
  "trace (snd (setCloseError_all (l, c))) = trace c @
      map (\<lambda>s. StreamSetCloseError s (ConnTimeout ErrConnectionTimeout)) (range_streams l)"
  "trace (snd (pc_Close (l, c))) = trace c @ [PcClose]"
  "trace (snd (scope_Done (l, c))) = trace c @ [ScopeDone]"
  by (simp_all add: set_closeErr_def
      cancel_def take_streams_def reset_all_def setCloseError_all_def pc_Close_def scope_Done_def
      fold_stream_Reset fold_stream_setCloseError emit_def)

lemma sys_counts_other: "sys_counts s \<Longrightarrow> sys_counts (sys_step body (Other x) s)"
proof (cases "body_running body s \<and> calls_Do x")
  case True
  assume "sys_counts s"
  then show ?thesis using True by simp
next
  case False
  obtain pc l c where s: "s = (pc, l, c)"
    by (cases s)
  have step: "sys_step body (Other x) s = (pc, l, apply_op x c)"
    using False s by auto
  assume inv: "sys_counts s"
  from apply_op_effect [of c x] have "sys_counts (pc, l, apply_op x c)"
  proof
    assume "stays c (apply_op x c)"
    then show ?thesis
      using inv s by (simp add: sys_counts_def stays_def)
  next
    assume "\<exists>k. closes k c (apply_op x c)"
    then obtain k where "closes k c (apply_op x c)" ..
    then show ?thesis
      using inv s by (auto simp: sys_counts_def closes_def split: if_splits)
  qed
  then show ?thesis
    by (simp only: step)
qed

lemma sys_counts_closer:
  assumes "body = Close_body \<or> body = closeTimedOut_body" and "sys_counts s"
  shows "sys_counts (sys_step body Closer s)"
proof -
  obtain pc l c where s: "s = (pc, l, c)"
    by (cases s)
  note b = body_nth [OF assms(1)]
  consider "pc = 0" | "pc = 1" | "pc = 2" | "pc = 3" | "pc = 4" | "pc = 5" | "pc = 6" | "6 < pc"
    by linarith
  then show ?thesis
  proof cases
    case 1
    then show ?thesis
      using assms(2) s b(1)
      by (auto simp: sys_counts_def closer_step_def split: if_splits)
  next
    case 2
    obtain e where "body ! 0 = set_closeErr e"
      using b(2) ..
    then show ?thesis
      using assms(2) s b(1) 2 stmt_counts(1) [of e l c] stmt_once(1) [of e l c]
      by (simp add: sys_counts_def closer_step_def case_prod_beta)
  next
    case 3
    then show ?thesis
      using assms(2) s b(1,3) stmt_counts(2) [of l c] stmt_once(2) [of l c]
      by (simp add: sys_counts_def closer_step_def case_prod_beta)
  next
    case 4
    then show ?thesis
      using assms(2) s b(1,4) stmt_counts(3) [of l c] stmt_once(3) [of l c]
      by (simp add: sys_counts_def closer_step_def case_prod_beta)
  next
    case 5
    then show ?thesis
      using assms(2) s b(1,5) stmt_counts(4,5) [of l c] stmt_once(4,5) [of l c]
      by (auto simp: sys_counts_def closer_step_def case_prod_beta)
  next
    case 6
    then show ?thesis
      using assms(2) s b(1,6) stmt_counts(6) [of l c] stmt_once(6) [of l c]
      by (simp add: sys_counts_def closer_step_def case_prod_beta)
  next
    case 7
    then show ?thesis
      using assms(2) s b(1,7) stmt_counts(7) [of l c] stmt_once(7) [of l c]
      by (simp add: sys_counts_def closer_step_def case_prod_beta)
  next
    case 8
    then show ?thesis
      using assms(2) s b(1)
      by (simp add: sys_counts_def closer_step_def)
  qed
qed

lemma sys_counts_run:
  assumes "body = Close_body \<or> body = closeTimedOut_body"
  shows "sys_counts s \<Longrightarrow> sys_counts (sys_run body sch s)"
proof (induction sch arbitrary: s)
  case Nil
  then show ?case by (simp add: sys_run_def)
next
  case (Cons a sch)
  have "sys_counts (sys_step body a s)"
    using Cons.prems assms by (cases a) (simp_all only: sys_counts_closer sys_counts_other)
  from Cons.IH [OF this] show ?case
    by (simp add: sys_run_def)
qed

lemma conn_inv_sys_counts: "conn_inv c \<Longrightarrow> sys_counts (0, l, c)"
  by (auto simp: conn_inv_def sys_counts_def split: if_splits)

text \<open>
  The teardown runs once also when the closing goroutine is interleaved, statement by
  statement, with any other calls on the connection: at every point of every schedule
  \<^verbatim>\<open>scope.Done\<close> and \<^verbatim>\<open>pc.Close\<close> have been called at most once, and exactly
  once when the closing goroutine has returned from \<^verbatim>\<open>closeOnce.Do\<close>.
\<close>

theorem teardown_once_interleaved:
  assumes "NewWebRTCConnection d st q = (Some c0, e0, t0)"
    and "body = Close_body \<or> body = closeTimedOut_body"
    and "sys_run body sch (0, None, run ops c0) = (pc, l, c)"
  shows "count_list (trace c) ScopeDone \<le> 1 \<and> count_list (trace c) PcClose \<le> 1
    \<and> (length body < pc \<longrightarrow>
          count_list (trace c) ScopeDone = 1 \<and> count_list (trace c) PcClose = 1)"
proof -
  have "conn_inv (run ops c0)"
    using assms(1) by (simp add: run_inv NewWebRTCConnection_inv)
  then have "sys_counts (0, None, run ops c0)"
    by (rule conn_inv_sys_counts)
  then have "sys_counts (sys_run body sch (0, None, run ops c0))"
    by (rule sys_counts_run [OF assms(2)])
  then have "sys_counts (pc, l, c)"
    using assms(3) by simp
  then show ?thesis
    using body_nth(1) [OF assms(2)]
    by (auto simp: sys_counts_def split: if_splits)
qed

theorem teardown_once_interleaved_witness:
  "count_list (trace (snd (snd (sys_run closeTimedOut_body
      [Closer, Closer, Other OpClose, Closer, Closer, Closer, Other OpClose, Closer, Closer]
      (0, None, run [OpAddStream (stream_of 2)] (fresh DirOutbound)))))) ScopeDone = 1
   \<and> fst (sys_run closeTimedOut_body
      [Closer, Closer, Other OpClose, Closer, Closer, Closer, Other OpClose, Closer, Closer]
      (0, None, run [OpAddStream (stream_of 2)] (fresh DirOutbound))) = 7"
proof -
  let ?s0 = "(0 :: nat, None :: (u16 \<times> stream) list option,
      run [OpAddStream (stream_of 2)] (fresh DirOutbound))"
  let ?s = "sys_run closeTimedOut_body
      [Closer, Closer, Other OpClose, Closer, Closer, Closer, Other OpClose, Closer, Closer] ?s0"
  have new: "NewWebRTCConnection DirOutbound PeerConnectionStateConnected
      (the (SetupDataChannelQueue maxChanLen maxAcceptQueueLen)) = (Some (fresh DirOutbound), None, [])"
    by (simp add: fresh_def NewWebRTCConnection_def)
  have body: "closeTimedOut_body = Close_body \<or> closeTimedOut_body = closeTimedOut_body"
    by simp
  have s: "?s = (fst ?s, fst (snd ?s), snd (snd ?s))"
    by simp
  have pc: "fst ?s = 7"
    by (simp add: sys_run_def closer_step_def closeTimedOut_body_def)
  from teardown_once_interleaved [OF new body s] pc
  show ?thesis
    by (simp add: closeTimedOut_body_def)
qed

text \<open>
  A connection made for a direction that is neither inbound nor outbound keeps the
  counter at 0, and its first \<^verbatim>\<open>OpenStream\<close> returns a stream with ID 0.
\<close>

lemma unknown_direction_allocates_zero:
  "fst (OpenStream (env_opened 7) (fresh DirUnknown)) =
     Returns (Some \<lparr>str_id = 0, str_channel = DataChannel 0, str_rwc = Some 7, str_onDone = 0\<rparr>,
              None)"
  by (simp add: fresh_eq OpenStream_def IsClosed_def nextStreamID_Add_def MaxUint16_def
      env_opened_def detachChannel_def case_ready_def newStream_def addStream_result Let_def)

end
